theory Spec2Isabelle
  imports Main
begin

section \<open>Python values\<close>

text \<open>
  The values that flow through \<^verbatim>\<open>orm.py\<close> and \<^verbatim>\<open>db.py\<close>: JSON data, the two
  library scalars the marshaller treats specially (\<^verbatim>\<open>Decimal\<close>, \<^verbatim>\<open>datetime\<close>) and
  dataclass instances. A finite \<^verbatim>\<open>Decimal\<close> is carried by its sign, coefficient and exponent,
  a \<^verbatim>\<open>datetime\<close> by its seven calendar components, a \<^verbatim>\<open>float\<close> by mantissa and
  binary exponent. A \<^verbatim>\<open>dict\<close> is the list of its items in insertion order; a
  dataclass instance is its class name with its attributes in field order.
  Dictionary keys are compared with HOL equality. For strings, and for ints among ints,
  that is Python's key equality (every key that \<^verbatim>\<open>db.py\<close> itself uses is a
  string); Python also identifies numerically equal keys of different kinds or scales
  (\<^verbatim>\<open>1\<close>, \<^verbatim>\<open>True\<close>, \<^verbatim>\<open>Decimal('1.0')\<close> and \<^verbatim>\<open>Decimal('1.00')\<close>), which
  this model keeps apart. Floats are carried, never computed with.
\<close>

datatype decimal = Decimal bool nat int

datatype datetime = Datetime nat nat nat nat nat nat nat

datatype pyfloat = PyFloat int int

datatype pyval =
    VNone
  | VBool bool
  | VInt int
  | VFloat pyfloat
  | VStr string
  | VDecimal decimal
  | VDatetime datetime
  | VList "pyval list"
  | VDict "(pyval \<times> pyval) list"
  | VObj string "(string \<times> pyval) list"

type_synonym pydict = "(pyval \<times> pyval) list"

text \<open>
  Exceptions are values: the class, the text that \<^verbatim>\<open>str(e)\<close> gives, and the
  \<^verbatim>\<open>__cause__\<close> set by \<^verbatim>\<open>raise ... from e\<close>. A function that can raise returns
  \<open>py_error + 'a\<close>. The texts of exceptions raised inside the Python library are
  abbreviated; those raised by the repository's own \<^verbatim>\<open>raise\<close> statements are exact.
\<close>

datatype exc_class = TypeError | ValueError | KeyError | IndexError | AttributeError
  | JSONDecodeError | ConnectionError | InvalidOperation

datatype py_error = Exc exc_class string "py_error option"

fun exc_str :: "py_error \<Rightarrow> string" where
  "exc_str (Exc c m cause) = m"

definition sum_bind :: "'e + 'a \<Rightarrow> ('a \<Rightarrow> 'e + 'b) \<Rightarrow> 'e + 'b" where
  "sum_bind r f = (case r of Inl e \<Rightarrow> Inl e | Inr x \<Rightarrow> f x)"

fun mapM :: "('a \<Rightarrow> 'e + 'b) \<Rightarrow> 'a list \<Rightarrow> 'e + 'b list" where
  "mapM f [] = Inr []"
| "mapM f (x # xs) =
     (case f x of
        Inl e \<Rightarrow> Inl e
      | Inr y \<Rightarrow> (case mapM f xs of Inl e \<Rightarrow> Inl e | Inr ys \<Rightarrow> Inr (y # ys)))"

subsection \<open>Dictionaries\<close>

text \<open>
  \<^verbatim>\<open>d[k] = v\<close> replaces the value of an existing key in place and appends a new key;
  \<^verbatim>\<open>d.update(other)\<close> and a dict comprehension assign the items one after the other;
  \<^verbatim>\<open>d.pop(k, None)\<close> removes the key if it is there.
\<close>

fun dict_set :: "'k \<Rightarrow> 'v \<Rightarrow> ('k \<times> 'v) list \<Rightarrow> ('k \<times> 'v) list" where
  "dict_set k v [] = [(k, v)]"
| "dict_set k v (p # ps) = (if fst p = k then (fst p, v) # ps else p # dict_set k v ps)"

definition dict_update :: "('k \<times> 'v) list \<Rightarrow> ('k \<times> 'v) list \<Rightarrow> ('k \<times> 'v) list" where
  "dict_update d other = fold (\<lambda>(k, v) acc. dict_set k v acc) other d"

definition dict_of_items :: "('k \<times> 'v) list \<Rightarrow> ('k \<times> 'v) list" where
  "dict_of_items ps = dict_update [] ps"

definition dict_pop :: "'k \<Rightarrow> ('k \<times> 'v) list \<Rightarrow> ('k \<times> 'v) list" where
  "dict_pop k d = filter (\<lambda>p. fst p \<noteq> k) d"

definition dict_get :: "pydict \<Rightarrow> string \<Rightarrow> pyval \<Rightarrow> pyval" where
  "dict_get d k dflt = (case map_of d (VStr k) of Some v \<Rightarrow> v | None \<Rightarrow> dflt)"

definition wf_dict :: "('k \<times> 'v) list \<Rightarrow> bool" where
  "wf_dict d = distinct (map fst d)"

subsection \<open>Builtins\<close>

fun type_name :: "pyval \<Rightarrow> string" where
  "type_name VNone = ''NoneType''"
| "type_name (VBool b) = ''bool''"
| "type_name (VInt i) = ''int''"
| "type_name (VFloat f) = ''float''"
| "type_name (VStr s) = ''str''"
| "type_name (VDecimal d) = ''Decimal''"
| "type_name (VDatetime t) = ''datetime''"
| "type_name (VList xs) = ''list''"
| "type_name (VDict kvs) = ''dict''"
| "type_name (VObj n fvs) = n"

fun truthy :: "pyval \<Rightarrow> bool" where
  "truthy VNone = False"
| "truthy (VBool b) = b"
| "truthy (VInt i) = (i \<noteq> 0)"
| "truthy (VFloat (PyFloat m e)) = (m \<noteq> 0)"
| "truthy (VStr s) = (s \<noteq> [])"
| "truthy (VDecimal (Decimal sg c e)) = (c \<noteq> 0)"
| "truthy (VDatetime t) = True"
| "truthy (VList xs) = (xs \<noteq> [])"
| "truthy (VDict kvs) = (kvs \<noteq> [])"
| "truthy (VObj n fvs) = True"

text \<open>\<^verbatim>\<open>v[key]\<close> for a string key, as \<^verbatim>\<open>db.py\<close> and \<^verbatim>\<open>Orm.save\<close> use it.\<close>

definition getitem :: "pyval \<Rightarrow> string \<Rightarrow> py_error + pyval" where
  "getitem v key = (case v of
       VDict kvs \<Rightarrow>
         (case map_of kvs (VStr key) of
            Some x \<Rightarrow> Inr x
          | None \<Rightarrow> Inl (Exc KeyError ([CHR 0x27] @ key @ [CHR 0x27]) None))
     | VList xs \<Rightarrow> Inl (Exc TypeError ''list indices must be integers or slices, not str'' None)
     | VStr s \<Rightarrow> Inl (Exc TypeError ''string indices must be integers'' None)
     | _ \<Rightarrow> Inl (Exc TypeError ([CHR 0x27] @ type_name v @ [CHR 0x27] @ '' object is not subscriptable'') None))"

text \<open>\<^verbatim>\<open>v[i]\<close> for the index \<open>i\<close> that \<^verbatim>\<open>enumerate\<close> gives (never negative).\<close>

definition getindex :: "pyval \<Rightarrow> nat \<Rightarrow> py_error + pyval" where
  "getindex v i = (case v of
       VList xs \<Rightarrow>
         (if i < length xs then Inr (xs ! i)
          else Inl (Exc IndexError ''list index out of range'' None))
     | VStr s \<Rightarrow>
         (if i < length s then Inr (VStr [s ! i])
          else Inl (Exc IndexError ''string index out of range'' None))
     | VDict kvs \<Rightarrow>
         (case map_of kvs (VInt (int i)) of
            Some x \<Rightarrow> Inr x
          | None \<Rightarrow> Inl (Exc KeyError ''missing integer key'' None))
     | _ \<Rightarrow> Inl (Exc TypeError ([CHR 0x27] @ type_name v @ [CHR 0x27] @ '' object is not subscriptable'') None))"

text \<open>\<^verbatim>\<open>for x in v\<close>: the items a \<^verbatim>\<open>for\<close> loop visits.\<close>

definition py_iter :: "pyval \<Rightarrow> py_error + pyval list" where
  "py_iter v = (case v of
       VList xs \<Rightarrow> Inr xs
     | VDict kvs \<Rightarrow> Inr (map fst kvs)
     | VStr s \<Rightarrow> Inr (map (\<lambda>c. VStr [c]) s)
     | _ \<Rightarrow> Inl (Exc TypeError ([CHR 0x27] @ type_name v @ [CHR 0x27] @ '' object is not iterable'') None))"

text \<open>
  The Python library behind the marshaller is a parameter: the conversions of
  \<^verbatim>\<open>int\<close>, \<^verbatim>\<open>float\<close>, \<^verbatim>\<open>str\<close> and \<^verbatim>\<open>Decimal\<close> on arguments of another type,
  the parser of \<^verbatim>\<open>datetime.fromisoformat\<close>, and the two printers \<^verbatim>\<open>str(Decimal)\<close>
  and \<^verbatim>\<open>datetime.isoformat\<close>. What the library documents for every implementation
  is written out: a constructor applied to a value of its own type returns it,
  \<^verbatim>\<open>int(True)\<close> is 1, and \<^verbatim>\<open>fromisoformat\<close> raises \<^verbatim>\<open>TypeError\<close> on anything but a
  string.
\<close>

record pylib =
  lib_int :: "pyval \<Rightarrow> py_error + int"
  lib_float :: "pyval \<Rightarrow> py_error + pyfloat"
  lib_str :: "pyval \<Rightarrow> string"
  lib_decimal :: "pyval \<Rightarrow> py_error + decimal"
  lib_fromisoformat :: "string \<Rightarrow> py_error + datetime"
  decimal_str :: "decimal \<Rightarrow> string"
  isoformat :: "datetime \<Rightarrow> string"

definition py_int :: "pylib \<Rightarrow> pyval \<Rightarrow> py_error + pyval" where
  "py_int lib v = (case v of
       VInt i \<Rightarrow> Inr (VInt i)
     | VBool b \<Rightarrow> Inr (VInt (if b then 1 else 0))
     | _ \<Rightarrow> map_sum id VInt (lib_int lib v))"

definition py_float :: "pylib \<Rightarrow> pyval \<Rightarrow> py_error + pyval" where
  "py_float lib v = (case v of
       VFloat f \<Rightarrow> Inr (VFloat f)
     | _ \<Rightarrow> map_sum id VFloat (lib_float lib v))"

definition py_str :: "pylib \<Rightarrow> pyval \<Rightarrow> py_error + pyval" where
  "py_str lib v = (case v of VStr s \<Rightarrow> Inr (VStr s) | _ \<Rightarrow> Inr (VStr (lib_str lib v)))"

definition py_bool :: "pyval \<Rightarrow> py_error + pyval" where
  "py_bool v = Inr (VBool (truthy v))"

definition py_Decimal :: "pylib \<Rightarrow> pyval \<Rightarrow> py_error + pyval" where
  "py_Decimal lib v = (case v of
       VDecimal d \<Rightarrow> Inr (VDecimal d)
     | _ \<Rightarrow> map_sum id VDecimal (lib_decimal lib v))"

definition py_fromisoformat :: "pylib \<Rightarrow> pyval \<Rightarrow> py_error + pyval" where
  "py_fromisoformat lib v = (case v of
       VStr s \<Rightarrow> map_sum id VDatetime (lib_fromisoformat lib s)
     | _ \<Rightarrow> Inl (Exc TypeError ''fromisoformat: argument must be str'' None))"

section \<open>The marshaller (orm.py)\<close>

subsection \<open>Schemas\<close>

text \<open>
  A field annotation, as \<^verbatim>\<open>deserialize_value\<close> tells them apart: \<^verbatim>\<open>Optional[T]\<close>
  (a \<^verbatim>\<open>Union\<close> of one type and \<^verbatim>\<open>None\<close>), \<^verbatim>\<open>List[T]\<close>, \<^verbatim>\<open>Dict[K, V]\<close> (a bare
  \<^verbatim>\<open>List\<close> or \<^verbatim>\<open>Dict\<close> has \<^verbatim>\<open>Any\<close> for its arguments, which is \<open>TOther\<close>), a
  dataclass with its fields, the six special types, and \<open>TOther\<close> for every
  annotation that reaches the fallback (\<^verbatim>\<open>Any\<close>, a \<^verbatim>\<open>Union\<close> of several types, the
  builtin \<^verbatim>\<open>list\<close> and \<^verbatim>\<open>dict\<close>, any other class). A field has a name, a type and
  at most one of \<^verbatim>\<open>default\<close> and \<^verbatim>\<open>default_factory\<close>; the factory is carried by the
  value its call returns.
\<close>

datatype fdefault = NoDefault | Default pyval | DefaultFactory pyval

datatype ftype =
    TInt | TFloat | TStr | TBool | TDecimal | TDatetime | TOther
  | TOptional ftype
  | TList ftype
  | TDict ftype ftype
  | TClass string "(string \<times> ftype \<times> fdefault) list"

type_synonym pyfield = "string \<times> ftype \<times> fdefault"

subsection \<open>serialize\<close>

text \<open>
  \<^verbatim>\<open>serialize_value\<close> (orm.py 22-34) tests \<^verbatim>\<open>Decimal\<close>, \<^verbatim>\<open>datetime\<close>, dataclass,
  \<^verbatim>\<open>list\<close>, \<^verbatim>\<open>dict\<close> in that order and returns any other value unchanged. For a
  dataclass it calls \<^verbatim>\<open>serialize\<close>, whose loop (orm.py 36-42) assigns
  \<^verbatim>\<open>serialized_data[field.name]\<close> field by field; that loop is the \<open>VObj\<close> equation.
\<close>

fun serialize_value :: "pylib \<Rightarrow> pyval \<Rightarrow> pyval" where
  "serialize_value lib (VDecimal d) = VStr (decimal_str lib d)"
| "serialize_value lib (VDatetime t) = VStr (isoformat lib t)"
| "serialize_value lib (VObj n fvs) =
     VDict (dict_of_items (map (\<lambda>(f, v). (VStr f, serialize_value lib v)) fvs))"
| "serialize_value lib (VList xs) = VList (map (\<lambda>item. serialize_value lib item) xs)"
| "serialize_value lib (VDict kvs) =
     VDict (dict_of_items (map (\<lambda>(key, val). (key, serialize_value lib val)) kvs))"
| "serialize_value lib v = v"

definition serialize :: "pylib \<Rightarrow> pyval \<Rightarrow> py_error + pydict" where
  "serialize lib model_instance = (case model_instance of
       VObj n fvs \<Rightarrow> Inr (dict_of_items (map (\<lambda>(f, v). (VStr f, serialize_value lib v)) fvs))
     | _ \<Rightarrow> Inl (Exc ValueError ''serialize function expects a dataclass instance'' None))"

subsection \<open>deserialize\<close>

lemma mapM_cong [fundef_cong]:
  "xs = ys \<Longrightarrow> (\<And>x. x \<in> set ys \<Longrightarrow> f x = g x) \<Longrightarrow> mapM f xs = mapM g ys"
  by (induction ys arbitrary: xs) (auto split: sum.splits)

text \<open>
  The wrapper of orm.py 120-121:
  \<^verbatim>\<open>raise ValueError(f"Error deserializing field '{field_name}': {e}") from e\<close>.
\<close>

definition field_error :: "string \<Rightarrow> py_error \<Rightarrow> py_error" where
  "field_error field_name e =
     Exc ValueError
       (''Error deserializing field '' @ [CHR 0x27] @ field_name @ [CHR 0x27] @ '': '' @ exc_str e)
       (Some e)"

text \<open>orm.py 124-129: \<^verbatim>\<open>default\<close> first, then \<^verbatim>\<open>default_factory()\<close>, then \<^verbatim>\<open>None\<close>.\<close>

fun default_value :: "fdefault \<Rightarrow> pyval" where
  "default_value (Default v) = v"
| "default_value (DefaultFactory v) = v"
| "default_value NoDefault = VNone"

text \<open>
  \<^verbatim>\<open>deserialize_value\<close> (orm.py 59-110) returns \<^verbatim>\<open>None\<close> for \<^verbatim>\<open>None\<close> before it looks
  at the type. The list and dict comprehensions stop at the first item that raises; a
  dict comprehension converts the key of an item before its value.
  \<^verbatim>\<open>deserialize\<close> (orm.py 112-131) takes the class as its name and fields and the
  document as the items of a dict; \<open>deserialize_fields\<close> is its loop, with
  \<^verbatim>\<open>deserialized_data\<close> as the accumulator, and \<^verbatim>\<open>model_class(**deserialized_data)\<close>
  builds the instance. The class given is always a dataclass here, so the
  \<^verbatim>\<open>is_dataclass\<close> test of orm.py 56 passes, and a dataclass constructor that is given
  every field does not raise.
\<close>

fun deserialize_value :: "pylib \<Rightarrow> ftype \<Rightarrow> pyval \<Rightarrow> py_error + pyval"
  and deserialize :: "pylib \<Rightarrow> string \<Rightarrow> pyfield list \<Rightarrow> pydict \<Rightarrow> py_error + pyval"
  and deserialize_fields :: "pylib \<Rightarrow> pyfield list \<Rightarrow> pydict
        \<Rightarrow> (string \<times> pyval) list \<Rightarrow> py_error + (string \<times> pyval) list"
where
  "deserialize_value lib (TOptional t) v =
     (if v = VNone then Inr VNone else deserialize_value lib t v)"
| "deserialize_value lib (TList t) v =
     (if v = VNone then Inr VNone else
      case v of
        VList xs \<Rightarrow>
          (case mapM (\<lambda>item. deserialize_value lib t item) xs of
             Inl e \<Rightarrow> Inl e
           | Inr ys \<Rightarrow> Inr (VList ys))
      | _ \<Rightarrow> Inl (Exc TypeError (''Expected list for field, got '' @ type_name v) None))"
| "deserialize_value lib (TDict kt vt) v =
     (if v = VNone then Inr VNone else
      case v of
        VDict kvs \<Rightarrow>
          (case mapM (\<lambda>(k, x).
                  case deserialize_value lib kt k of
                    Inl e \<Rightarrow> Inl e
                  | Inr k' \<Rightarrow> (case deserialize_value lib vt x of
                                 Inl e \<Rightarrow> Inl e
                               | Inr x' \<Rightarrow> Inr (k', x'))) kvs of
             Inl e \<Rightarrow> Inl e
           | Inr ps \<Rightarrow> Inr (VDict (dict_of_items ps)))
      | _ \<Rightarrow> Inl (Exc TypeError (''Expected dict for field, got '' @ type_name v) None))"
| "deserialize_value lib (TClass n fs) v =
     (if v = VNone then Inr VNone else
      case v of
        VDict kvs \<Rightarrow> deserialize lib n fs kvs
      | _ \<Rightarrow> Inl (Exc TypeError (''Expected dict for dataclass field, got '' @ type_name v) None))"
| "deserialize_value lib TDecimal v = (if v = VNone then Inr VNone else py_Decimal lib v)"
| "deserialize_value lib TDatetime v = (if v = VNone then Inr VNone else py_fromisoformat lib v)"
| "deserialize_value lib TInt v = (if v = VNone then Inr VNone else py_int lib v)"
| "deserialize_value lib TFloat v = (if v = VNone then Inr VNone else py_float lib v)"
| "deserialize_value lib TStr v = (if v = VNone then Inr VNone else py_str lib v)"
| "deserialize_value lib TBool v = (if v = VNone then Inr VNone else py_bool v)"
| "deserialize_value lib TOther v = (if v = VNone then Inr VNone else Inr v)"
| "deserialize lib n fs data =
     (case deserialize_fields lib fs data [] of
        Inl e \<Rightarrow> Inl e
      | Inr deserialized_data \<Rightarrow> Inr (VObj n deserialized_data))"
| "deserialize_fields lib [] data deserialized_data = Inr deserialized_data"
| "deserialize_fields lib ((field_name, field_type, dflt) # rest) data deserialized_data =
     (case map_of data (VStr field_name) of
        Some raw_value \<Rightarrow>
          (case deserialize_value lib field_type raw_value of
             Inl e \<Rightarrow> Inl (field_error field_name e)
           | Inr x \<Rightarrow> deserialize_fields lib rest data (dict_set field_name x deserialized_data))
      | None \<Rightarrow>
          deserialize_fields lib rest data
            (dict_set field_name (default_value dflt) deserialized_data))"

section \<open>The document store client (db.py)\<close>

subsection \<open>Transport\<close>

text \<open>
  A request of \<^verbatim>\<open>self.session\<close>: the verb, the URL below \<^verbatim>\<open>self._url\<close>, the query
  parameters and the \<^verbatim>\<open>json=\<close> body. The URL \<^verbatim>\<open>f"{self._url}/{id}"\<close> is kept as the
  identifier it is built from. A response is its \<^verbatim>\<open>status_code\<close> and what
  \<^verbatim>\<open>.json()\<close> decodes from its body (\<open>None\<close> when the body is not JSON, where
  \<^verbatim>\<open>.json()\<close> raises). The session is a parameter: a function of the request and of
  the state of the world behind it that either raises or returns a response.
\<close>

datatype http_method = GET | POST | PUT

datatype url = Url_db | Url_doc pyval | Url_bulk_docs | Url_find | Url_changes

datatype request = Request http_method url "(string \<times> string) list" "pyval option"

datatype response = Response (status_code: nat) (body: "pyval option")

type_synonym 's session = "request \<Rightarrow> 's \<Rightarrow> (py_error + response) \<times> 's"

definition json :: "response \<Rightarrow> py_error + pyval" where
  "json res = (case body res of
       Some v \<Rightarrow> Inr v
     | None \<Rightarrow> Inl (Exc JSONDecodeError ''Expecting value'' None))"

subsection \<open>get, post, put\<close>

definition Db_get :: "'s session \<Rightarrow> pyval \<Rightarrow> 's \<Rightarrow> (py_error + pyval) \<times> 's" where
  "Db_get session ident s =
     (case session (Request GET (Url_doc ident) [] None) s of
        (Inl e, s') \<Rightarrow> (Inl e, s')
      | (Inr res, s') \<Rightarrow>
          if status_code res \<noteq> 200 then (Inr VNone, s') else (json res, s'))"

definition Db_post :: "'s session \<Rightarrow> pydict \<Rightarrow> 's \<Rightarrow> (py_error + pydict option) \<times> 's" where
  "Db_post session doc s =
     (case session (Request POST Url_db [] (Some (VDict doc))) s of
        (Inl e, s') \<Rightarrow> (Inl e, s')
      | (Inr res, s') \<Rightarrow>
          if status_code res \<noteq> 201 then (Inr None, s')
          else
            (sum_bind (json res) (\<lambda>r.
             sum_bind (getitem r ''id'') (\<lambda>new_id.
             sum_bind (getitem r ''rev'') (\<lambda>new_rev.
               Inr (Some (dict_set (VStr ''_rev'') new_rev
                           (dict_set (VStr ''_id'') new_id doc)))))), s'))"

text \<open>db.py 82-84, the common end of \<^verbatim>\<open>put\<close>: decode the last response and store its \<^verbatim>\<open>rev\<close>.\<close>

definition put_result :: "pydict \<Rightarrow> response \<Rightarrow> py_error + pydict option" where
  "put_result doc result =
     sum_bind (json result) (\<lambda>res.
     sum_bind (getitem res ''rev'') (\<lambda>new_rev.
       Inr (Some (dict_set (VStr ''_rev'') new_rev doc))))"

definition Db_put :: "'s session \<Rightarrow> pydict \<Rightarrow> 's \<Rightarrow> (py_error + pydict option) \<times> 's" where
  "Db_put session doc0 s =
     (case map_of doc0 (VStr ''_id'') of
        None \<Rightarrow> Db_post session doc0 s
      | Some VNone \<Rightarrow> Db_post session doc0 s
      | Some ident \<Rightarrow>
          let doc = (if map_of doc0 (VStr ''_rev'') = Some VNone
                     then dict_pop (VStr ''_rev'') doc0 else doc0)
          in
          (case session (Request PUT (Url_doc ident) [] (Some (VDict doc))) s of
             (Inl e, s1) \<Rightarrow> (Inl e, s1)
           | (Inr result, s1) \<Rightarrow>
               if status_code result \<noteq> 200 \<and> status_code result \<noteq> 201 then
                 (case Db_get session ident s1 of
                    (Inl e, s2) \<Rightarrow> (Inl e, s2)
                  | (Inr current_doc, s2) \<Rightarrow>
                      if truthy current_doc then
                        (case current_doc of
                           VDict cur \<Rightarrow>
                             (let merged = dict_update cur doc in
                              case map_of merged (VStr ''_id'') of
                                None \<Rightarrow> (Inl (Exc KeyError ([CHR 0x27] @ ''_id'' @ [CHR 0x27]) None), s2)
                              | Some merged_id \<Rightarrow>
                                  (case session (Request PUT (Url_doc merged_id) []
                                                   (Some (VDict merged))) s2 of
                                     (Inl e, s3) \<Rightarrow> (Inl e, s3)
                                   | (Inr retried, s3) \<Rightarrow> (put_result doc retried, s3)))
                         | _ \<Rightarrow>
                             (Inl (Exc AttributeError
                                     ([CHR 0x27] @ type_name current_doc @ [CHR 0x27]
                                        @ '' object has no attribute '' @ [CHR 0x27] @ ''update'' @ [CHR 0x27])
                                     None), s2))
                      else (Inr None, s2))
               else (put_result doc result, s1)))"

subsection \<open>bulk_update\<close>

text \<open>
  db.py 95: \<^verbatim>\<open>doc.pop('_rev', None)\<close> for every document whose
  \<^verbatim>\<open>doc.get('_rev', None)\<close> is falsy. db.py 99: the documents are updated in order,
  the \<open>i\<close>-th from \<^verbatim>\<open>result[i]\<close>; the first failing subscript ends the call. The
  documents of a batch are separate values here: a batch that holds one and the same
  dict object at two positions, which Python would update twice in place, is not
  represented.
\<close>

definition strip_rev :: "pydict \<Rightarrow> pydict" where
  "strip_rev doc =
     (if \<not> truthy (dict_get doc ''_rev'' VNone) then dict_pop (VStr ''_rev'') doc else doc)"

fun assign_ids :: "pyval \<Rightarrow> nat \<Rightarrow> pydict list \<Rightarrow> py_error + pydict list" where
  "assign_ids result i [] = Inr []"
| "assign_ids result i (doc # docs) =
     (case getindex result i of
        Inl e \<Rightarrow> Inl e
      | Inr entry \<Rightarrow>
          (case getitem entry ''id'' of
             Inl e \<Rightarrow> Inl e
           | Inr new_id \<Rightarrow>
               (case getitem entry ''rev'' of
                  Inl e \<Rightarrow> Inl e
                | Inr new_rev \<Rightarrow>
                    (case assign_ids result (Suc i) docs of
                       Inl e \<Rightarrow> Inl e
                     | Inr rest \<Rightarrow>
                         Inr (dict_update doc [(VStr ''_id'', new_id), (VStr ''_rev'', new_rev)]
                              # rest)))))"

definition bulk_request :: "pydict list \<Rightarrow> request" where
  "bulk_request docs =
     Request POST Url_bulk_docs [] (Some (VDict [(VStr ''docs'', VList (map VDict docs))]))"

definition Db_bulk_update :: "'s session \<Rightarrow> pydict list \<Rightarrow> 's \<Rightarrow> (py_error + pydict list) \<times> 's" where
  "Db_bulk_update session docs0 s =
     (let docs = map strip_rev docs0 in
      case session (bulk_request docs) s of
        (Inl e, s') \<Rightarrow> (Inl e, s')
      | (Inr res, s') \<Rightarrow> (sum_bind (json res) (\<lambda>result. assign_ids result 0 docs), s'))"

subsection \<open>find\<close>

definition find_request :: "pyval \<Rightarrow> pyval \<Rightarrow> pyval \<Rightarrow> pyval \<Rightarrow> request" where
  "find_request query skip limit flds =
     Request POST Url_find []
       (Some (VDict ([(VStr ''selector'', query), (VStr ''skip'', skip), (VStr ''limit'', limit)]
                     @ (if truthy flds then [(VStr ''fields'', flds)] else []))))"

definition Db_find :: "'s session \<Rightarrow> pyval \<Rightarrow> pyval \<Rightarrow> pyval \<Rightarrow> pyval \<Rightarrow> 's
    \<Rightarrow> (py_error + pyval) \<times> 's" where
  "Db_find session query skip limit flds s =
     (case session (find_request query skip limit flds) s of
        (Inl e, s') \<Rightarrow> (Inl e, s')
      | (Inr result, s') \<Rightarrow>
          if status_code result \<noteq> 200 then (Inr (VList []), s')
          else
            (sum_bind (json result) (\<lambda>r.
               case r of
                 VDict kvs \<Rightarrow> Inr (dict_get kvs ''docs'' (VList []))
               | _ \<Rightarrow> Inl (Exc AttributeError
                              ([CHR 0x27] @ type_name r @ [CHR 0x27]
                                 @ '' object has no attribute '' @ [CHR 0x27] @ ''get'' @ [CHR 0x27])
                              None)), s'))"

subsection \<open>changes\<close>

text \<open>
  The generator of db.py 199-218, run by a consumer that keeps asking. One poll cycle
  posts the request (outside the \<^verbatim>\<open>try\<close>), then inside the \<^verbatim>\<open>try\<close> decodes the body,
  takes \<^verbatim>\<open>['results']\<close>, iterates it and yields \<^verbatim>\<open>res['doc']\<close> for each entry; an
  exception there is logged and breaks the loop, after the documents already yielded.
  \<^verbatim>\<open>while True\<close> has no other exit, so the loop is run for at most a given number of
  cycles: \<open>Running\<close> says that the generator is still live after them.
\<close>

datatype gen_end = Running | Stopped | Raised py_error

fun yield_docs :: "pyval list \<Rightarrow> pyval list \<times> py_error option" where
  "yield_docs [] = ([], None)"
| "yield_docs (res # rest) =
     (case getitem res ''doc'' of
        Inl e \<Rightarrow> ([], Some e)
      | Inr d \<Rightarrow> (case yield_docs rest of (ds, r) \<Rightarrow> (d # ds, r)))"

definition poll_cycle :: "response \<Rightarrow> pyval list \<times> py_error option" where
  "poll_cycle response =
     (case json response of
        Inl e \<Rightarrow> ([], Some e)
      | Inr j \<Rightarrow>
          (case getitem j ''results'' of
             Inl e \<Rightarrow> ([], Some e)
           | Inr results \<Rightarrow>
               (case py_iter results of
                  Inl e \<Rightarrow> ([], Some e)
                | Inr items \<Rightarrow> yield_docs items)))"

definition changes_request :: "pyval \<Rightarrow> request" where
  "changes_request query =
     (let params = [(''feed'', ''longpoll''), (''since'', ''now''),
                    (''include_docs'', ''true''), (''live'', ''true'')]
      in if truthy query
         then Request POST Url_changes (params @ [(''filter'', ''_selector'')])
                (Some (VDict [(VStr ''selector'', query)]))
         else Request POST Url_changes params (Some (VDict [])))"

fun changes_loop :: "'s session \<Rightarrow> request \<Rightarrow> nat \<Rightarrow> 's
    \<Rightarrow> (pyval list \<times> string list \<times> gen_end) \<times> 's" where
  "changes_loop session rq 0 s = (([], [], Running), s)"
| "changes_loop session rq (Suc n) s =
     (case session rq s of
        (Inl e, s') \<Rightarrow> (([], [], Raised e), s')
      | (Inr response, s') \<Rightarrow>
          (case poll_cycle response of
             (ds, Some e) \<Rightarrow> ((ds, [''Error: '' @ exc_str e], Stopped), s')
           | (ds, None) \<Rightarrow>
               (case changes_loop session rq n s' of
                  ((ds', logged, fin), s'') \<Rightarrow> ((ds @ ds', logged, fin), s''))))"

definition Db_changes :: "'s session \<Rightarrow> pyval \<Rightarrow> nat \<Rightarrow> 's
    \<Rightarrow> (pyval list \<times> string list \<times> gen_end) \<times> 's" where
  "Db_changes session query n s = changes_loop session (changes_request query) n s"

section \<open>The object mapper (orm.py): save\<close>

fun setattr :: "pyval \<Rightarrow> string \<Rightarrow> pyval \<Rightarrow> pyval" where
  "setattr (VObj n fvs) name x = VObj n (dict_set name x fvs)"
| "setattr v name x = v"

fun getattr :: "pyval \<Rightarrow> string \<Rightarrow> pyval option" where
  "getattr (VObj n fvs) name = map_of fvs name"
| "getattr v name = None"

definition Orm_save :: "pylib \<Rightarrow> 's session \<Rightarrow> pyval \<Rightarrow> 's \<Rightarrow> (py_error + pyval) \<times> 's" where
  "Orm_save lib session self s =
     (case serialize lib self of
        Inl e \<Rightarrow> (Inl e, s)
      | Inr doc0 \<Rightarrow>
          (case Db_put session doc0 s of
             (Inl e, s') \<Rightarrow> (Inl e, s')
           | (Inr r, s') \<Rightarrow>
               (let doc = (case r of None \<Rightarrow> VNone | Some d \<Rightarrow> VDict d) in
                (sum_bind (getitem doc ''_id'') (\<lambda>new_id.
                 sum_bind (getitem doc ''_rev'') (\<lambda>new_rev.
                   Inr (setattr (setattr self ''_id'' new_id) ''_rev'' new_rev))), s'))))"

section \<open>Sessions and a library table for concrete runs\<close>

text \<open>
  \<open>traced\<close> records every request a session receives. \<open>replay\<close> answers the
  successive requests from a list of outcomes and raises \<^verbatim>\<open>ConnectionError\<close> when the
  list is used up.
\<close>

definition traced :: "'s session \<Rightarrow> ('s \<times> request list) session" where
  "traced session rq st =
     (case session rq (fst st) of (r, s') \<Rightarrow> (r, (s', snd st @ [rq])))"

fun replay :: "(py_error + response) list session" where
  "replay rq [] = (Inl (Exc ConnectionError ''connection refused'' None), [])"
| "replay rq (r # rs) = (r, rs)"

text \<open>
  A document store with optimistic concurrency, as section 3 and 4.2 of the
  specification describe the collaborator: documents by identifier, each with its
  current \<^verbatim>\<open>_rev\<close>; a write is accepted when its \<^verbatim>\<open>_rev\<close> is the stored one (or when
  neither exists) and then gets the next token of a supply; any other write is a
  conflict (409); a read of an unknown identifier is 404.
\<close>

type_synonym store = "(pyval \<times> pydict) list \<times> pyval list"

definition conflict_body :: pyval where
  "conflict_body =
     VDict [(VStr ''error'', VStr ''conflict''), (VStr ''reason'', VStr ''Document update conflict.'')]"

definition not_found_body :: pyval where
  "not_found_body = VDict [(VStr ''error'', VStr ''not_found''), (VStr ''reason'', VStr ''missing'')]"

fun couch :: "store session" where
  "couch (Request GET (Url_doc ident) ps b) (docs, supply) =
     (case map_of docs ident of
        Some d \<Rightarrow> (Inr (Response 200 (Some (VDict d))), (docs, supply))
      | None \<Rightarrow> (Inr (Response 404 (Some not_found_body)), (docs, supply)))"
| "couch (Request PUT (Url_doc ident) ps (Some (VDict d))) (docs, supply) =
     (if map_of d (VStr ''_rev'')
           = (case map_of docs ident of Some cur \<Rightarrow> map_of cur (VStr ''_rev'') | None \<Rightarrow> None)
      then
        (case supply of
           [] \<Rightarrow> (Inr (Response 500 None), (docs, supply))
         | r # rs \<Rightarrow>
             (Inr (Response 201
                     (Some (VDict [(VStr ''ok'', VBool True), (VStr ''id'', ident), (VStr ''rev'', r)]))),
              (dict_set ident (dict_set (VStr ''_rev'') r (dict_set (VStr ''_id'') ident d)) docs, rs)))
      else (Inr (Response 409 (Some conflict_body)), (docs, supply)))"
| "couch rq st = (Inr (Response 400 None), st)"

text \<open>
  The library at the values the concrete runs use: \<^verbatim>\<open>str(Decimal('1.50'))\<close> is
  \<^verbatim>\<open>'1.50'\<close> and \<^verbatim>\<open>Decimal('1.50')\<close> has coefficient 150 and exponent -2;
  \<^verbatim>\<open>datetime(2024, 1, 2, 3, 4, 5).isoformat()\<close> is \<^verbatim>\<open>'2024-01-02T03:04:05'\<close> and
  \<^verbatim>\<open>fromisoformat\<close> reads it back; \<^verbatim>\<open>int('42')\<close> is 42 and \<^verbatim>\<open>int('abc')\<close> raises
  \<^verbatim>\<open>ValueError\<close>. Every other entry raises.
\<close>

definition lib0 :: pylib where
  "lib0 = \<lparr>
     lib_int = (\<lambda>v. if v = VStr ''42'' then Inr 42
                     else if v = VStr ''abc''
                     then Inl (Exc ValueError ''invalid literal for int() with base 10: abc'' None)
                     else Inl (Exc TypeError ''int() argument'' None)),
     lib_float = (\<lambda>v. Inl (Exc TypeError ''float() argument'' None)),
     lib_str = (\<lambda>v. ''?''),
     lib_decimal = (\<lambda>v. if v = VStr ''1.50'' then Inr (Decimal False 150 (- 2))
                         else Inl (Exc InvalidOperation ''ConversionSyntax'' None)),
     lib_fromisoformat = (\<lambda>s. if s = ''2024-01-02T03:04:05'' then Inr (Datetime 2024 1 2 3 4 5 0)
                               else Inl (Exc ValueError ''Invalid isoformat string'' None)),
     decimal_str = (\<lambda>d. if d = Decimal False 150 (- 2) then ''1.50'' else ''?''),
     isoformat = (\<lambda>t. if t = Datetime 2024 1 2 3 4 5 0 then ''2024-01-02T03:04:05'' else ''?'')
   \<rparr>"

section \<open>Notions the properties are stated with\<close>

text \<open>A non-success response is one whose status is outside 200..299.\<close>

definition non_success :: "response \<Rightarrow> bool" where
  "non_success res = (status_code res < 200 \<or> 300 \<le> status_code res)"

subsection \<open>Concrete inputs\<close>

text \<open>
  The conflict scenario of the specification: the store holds
  \<^verbatim>\<open>{_id: "a", _rev: "2", x: 9, y: 9}\<close> and the caller writes
  \<^verbatim>\<open>{_id: "a", _rev: "1", x: 2}\<close>. In \<open>racing_replies\<close> the caller's document has no
  revision, and another writer commits between the re-fetch and the retry, so that the
  retry is rejected too.
\<close>

definition stored_D2 :: store where
  "stored_D2 =
     ([(VStr ''a'', [(VStr ''_id'', VStr ''a''), (VStr ''_rev'', VStr ''2''),
                     (VStr ''x'', VInt 9), (VStr ''y'', VInt 9)])],
      [VStr ''3'', VStr ''4''])"

definition caller_doc :: pydict where
  "caller_doc = [(VStr ''_id'', VStr ''a''), (VStr ''_rev'', VStr ''1''), (VStr ''x'', VInt 2)]"

definition racing_replies :: "(py_error + response) list" where
  "racing_replies =
     [Inr (Response 409 (Some conflict_body)),
      Inr (Response 200 (Some (VDict [(VStr ''_id'', VStr ''a''), (VStr ''_rev'', VStr ''2''),
                                      (VStr ''x'', VInt 9), (VStr ''y'', VInt 9)]))),
      Inr (Response 409 (Some conflict_body))]"

text \<open>
  A batch of four documents: a null \<^verbatim>\<open>_rev\<close>, an empty one, none, and a stored
  document with its revision; the store's answer to it; and the answer of the store to
  a single stale document, which has an \<^verbatim>\<open>id\<close> and an \<^verbatim>\<open>error\<close> but no \<^verbatim>\<open>rev\<close>.
\<close>

definition batch_docs :: "pydict list" where
  "batch_docs = [[(VStr ''x'', VInt 1), (VStr ''_rev'', VNone)],
                 [(VStr ''x'', VInt 2), (VStr ''_rev'', VStr [])],
                 [(VStr ''x'', VInt 3)],
                 [(VStr ''_id'', VStr ''d''), (VStr ''_rev'', VStr ''7''), (VStr ''x'', VInt 4)]]"

definition batch_entries :: "pyval list" where
  "batch_entries = [VDict [(VStr ''ok'', VBool True), (VStr ''id'', VStr ''i1''), (VStr ''rev'', VStr ''r1'')],
                    VDict [(VStr ''ok'', VBool True), (VStr ''id'', VStr ''i2''), (VStr ''rev'', VStr ''r2'')],
                    VDict [(VStr ''ok'', VBool True), (VStr ''id'', VStr ''i3''), (VStr ''rev'', VStr ''r3'')],
                    VDict [(VStr ''ok'', VBool True), (VStr ''id'', VStr ''d''), (VStr ''rev'', VStr ''8'')]]"

definition conflict_entries :: "pyval list" where
  "conflict_entries =
     [VDict [(VStr ''id'', VStr ''a''), (VStr ''error'', VStr ''conflict''),
             (VStr ''reason'', VStr ''Document update conflict.'')]]"

definition feed_replies :: "(py_error + response) list" where
  "feed_replies =
     [Inr (Response 200 (Some (VDict [(VStr ''results'', VList [VDict [(VStr ''doc'', VInt 1)]])]))),
      Inr (Response 200 (Some (VDict [(VStr ''results'',
             VList [VDict [(VStr ''doc'', VInt 2)], VInt 3])]))),
      Inr (Response 200 (Some (VDict [(VStr ''results'', VList [VDict [(VStr ''doc'', VInt 4)]])])))]"

definition fresh_instance :: pyval where
  "fresh_instance = VObj ''Item'' [(''_id'', VStr ''a''), (''_rev'', VNone), (''x'', VInt 2)]"

definition stale_instance :: pyval where
  "stale_instance = VObj ''Item'' [(''_id'', VStr ''zz''), (''_rev'', VStr ''7''), (''x'', VInt 2)]"

subsection \<open>Instances that conform to a schema\<close>

text \<open>
  \<open>conforms lib t v\<close>: the value \<open>v\<close> has the kind the annotation \<open>t\<close> declares.
  \<^verbatim>\<open>None\<close> is allowed everywhere (dataclasses do not check it). A \<^verbatim>\<open>Decimal\<close> or
  \<^verbatim>\<open>datetime\<close> conforms when the library's parser reads back what its printer wrote
  for it. A value under a fallback annotation conforms when \<^verbatim>\<open>serialize_value\<close>
  leaves it unchanged. The keys of a \<^verbatim>\<open>Dict[K, V]\<close> are distinct and each is a value
  that the conversion to \<open>K\<close> returns as it is, since \<^verbatim>\<open>serialize_value\<close> does not
  touch keys. An instance of a dataclass has the class's name and its fields in order.
\<close>

fun conforms :: "pylib \<Rightarrow> ftype \<Rightarrow> pyval \<Rightarrow> bool"
  and conforms_fields :: "pylib \<Rightarrow> pyfield list \<Rightarrow> (string \<times> pyval) list \<Rightarrow> bool"
where
  "conforms lib TInt v = (case v of VNone \<Rightarrow> True | VInt i \<Rightarrow> True | _ \<Rightarrow> False)"
| "conforms lib TFloat v = (case v of VNone \<Rightarrow> True | VFloat x \<Rightarrow> True | _ \<Rightarrow> False)"
| "conforms lib TStr v = (case v of VNone \<Rightarrow> True | VStr s \<Rightarrow> True | _ \<Rightarrow> False)"
| "conforms lib TBool v = (case v of VNone \<Rightarrow> True | VBool b \<Rightarrow> True | _ \<Rightarrow> False)"
| "conforms lib TDecimal v =
     (case v of
        VNone \<Rightarrow> True
      | VDecimal d \<Rightarrow> lib_decimal lib (VStr (decimal_str lib d)) = Inr d
      | _ \<Rightarrow> False)"
| "conforms lib TDatetime v =
     (case v of
        VNone \<Rightarrow> True
      | VDatetime t \<Rightarrow> lib_fromisoformat lib (isoformat lib t) = Inr t
      | _ \<Rightarrow> False)"
| "conforms lib TOther v = (serialize_value lib v = v)"
| "conforms lib (TOptional t) v = conforms lib t v"
| "conforms lib (TList t) v =
     (case v of
        VNone \<Rightarrow> True
      | VList xs \<Rightarrow> list_all (\<lambda>x. conforms lib t x) xs
      | _ \<Rightarrow> False)"
| "conforms lib (TDict kt vt) v =
     (case v of
        VNone \<Rightarrow> True
      | VDict kvs \<Rightarrow>
          wf_dict kvs
          \<and> list_all (\<lambda>(k, x). deserialize_value lib kt k = Inr k \<and> conforms lib vt x) kvs
      | _ \<Rightarrow> False)"
| "conforms lib (TClass n fs) v =
     (case v of
        VNone \<Rightarrow> True
      | VObj n' fvs \<Rightarrow> n' = n \<and> distinct (map fst fs) \<and> conforms_fields lib fs fvs
      | _ \<Rightarrow> False)"
| "conforms_fields lib [] fvs = (fvs = [])"
| "conforms_fields lib ((f, t, d) # fs) fvs =
     (case fvs of
        [] \<Rightarrow> False
      | (g, x) # rest \<Rightarrow> g = f \<and> conforms lib t x \<and> conforms_fields lib fs rest)"

subsection \<open>Concrete schemas and documents\<close>

definition product_fields :: "pyfield list" where
  "product_fields =
     [(''_id'', TStr, DefaultFactory (VStr ''generated-uuid'')),
      (''_rev'', TStr, Default VNone),
      (''n'', TInt, NoDefault),
      (''price'', TDecimal, NoDefault),
      (''note'', TOptional TStr, NoDefault),
      (''tags'', TList TStr, DefaultFactory (VList []))]"

definition product_doc :: pydict where
  "product_doc = [(VStr ''n'', VStr ''42''), (VStr ''price'', VStr ''1.50'')]"

definition broken_doc :: pydict where
  "broken_doc = [(VStr ''n'', VStr ''abc''), (VStr ''price'', VStr ''1.50'')]"

definition customer_fields :: "pyfield list" where
  "customer_fields = [(''name'', TStr, NoDefault), (''age'', TInt, NoDefault)]"

definition order_fields :: "pyfield list" where
  "order_fields =
     [(''_id'', TStr, DefaultFactory (VStr ''generated-uuid'')),
      (''_rev'', TStr, Default VNone),
      (''price'', TDecimal, NoDefault),
      (''placed'', TDatetime, NoDefault),
      (''note'', TOptional TStr, Default VNone),
      (''tags'', TList TStr, DefaultFactory (VList [])),
      (''stock'', TDict TStr TInt, DefaultFactory (VDict [])),
      (''customer'', TClass ''Customer'' customer_fields, NoDefault),
      (''paid'', TBool, Default (VBool False))]"

definition order_instance :: pyval where
  "order_instance =
     VObj ''Order''
       [(''_id'', VStr ''o1''),
        (''_rev'', VNone),
        (''price'', VDecimal (Decimal False 150 (- 2))),
        (''placed'', VDatetime (Datetime 2024 1 2 3 4 5 0)),
        (''note'', VNone),
        (''tags'', VList [VStr ''new'', VStr ''gift'']),
        (''stock'', VDict [(VStr ''berlin'', VInt 3), (VStr ''paris'', VInt 0)]),
        (''customer'', VObj ''Customer'' [(''name'', VStr ''Ada''), (''age'', VInt 36)]),
        (''paid'', VBool True)]"

definition event_fields :: "pyfield list" where
  "event_fields = [(''seen'', TDict TDatetime TInt, NoDefault)]"

definition event_instance :: pyval where
  "event_instance = VObj ''Event'' [(''seen'', VDict [(VDatetime (Datetime 2024 1 2 3 4 5 0), VInt 1)])]"

section \<open>Facts about dictionaries\<close>

lemma map_of_dict_set: "map_of (dict_set k v d) k' = (if k' = k then Some v else map_of d k')"
  by (induction d) auto

lemma map_of_dict_pop: "map_of (dict_pop k d) k' = (if k' = k then None else map_of d k')"
  by (induction d) (auto simp: dict_pop_def)

lemma map_of_fold_dict_set:
  "map_of (fold (\<lambda>(k, v) acc. dict_set k v acc) other d) k
     = (case map_of (rev other) k of Some v \<Rightarrow> Some v | None \<Rightarrow> map_of d k)"
proof (induction other arbitrary: d)
  case Nil
  then show ?case by simp
next
  case (Cons p other)
  obtain a b where p: "p = (a, b)" by (cases p)
  show ?case
    by (simp add: Cons.IH p map_of_dict_set map_add_def split: option.splits)
qed

lemma map_of_rev_distinct: "distinct (map fst xs) \<Longrightarrow> map_of (rev xs) = map_of xs"
  by (simp add: distinct_map map_of_inject_set)

lemma map_of_dict_update:
  "wf_dict other \<Longrightarrow>
   map_of (dict_update d other) k = (case map_of other k of Some v \<Rightarrow> Some v | None \<Rightarrow> map_of d k)"
  by (simp add: dict_update_def map_of_fold_dict_set wf_dict_def map_of_rev_distinct)

lemma keys_list_dict_set:
  "map fst (dict_set k v d) = (if k \<in> fst ` set d then map fst d else map fst d @ [k])"
  by (induction d) auto

lemma distinct_dict_set: "distinct (map fst d) \<Longrightarrow> distinct (map fst (dict_set k v d))"
  by (simp add: keys_list_dict_set)

lemma dict_set_fresh: "k \<notin> fst ` set d \<Longrightarrow> dict_set k v d = d @ [(k, v)]"
  by (induction d) auto

lemma fold_dict_set_fresh:
  "distinct (map fst d @ map fst ps) \<Longrightarrow> fold (\<lambda>(k, v) acc. dict_set k v acc) ps d = d @ ps"
proof (induction ps arbitrary: d)
  case Nil
  then show ?case by simp
next
  case (Cons p ps)
  obtain a b where p: "p = (a, b)" by (cases p)
  from Cons.prems have fresh: "a \<notin> fst ` set d" by (auto simp: p)
  from Cons.prems have "distinct (map fst (d @ [(a, b)]) @ map fst ps)" by (auto simp: p)
  then have "fold (\<lambda>(k, v) acc. dict_set k v acc) ps (d @ [(a, b)]) = (d @ [(a, b)]) @ ps"
    by (rule Cons.IH)
  then show ?case by (simp add: p dict_set_fresh [OF fresh])
qed

lemma dict_of_items_wf: "wf_dict ps \<Longrightarrow> dict_of_items ps = ps"
  using fold_dict_set_fresh [of "[]" ps] by (simp add: dict_of_items_def dict_update_def wf_dict_def)

section \<open>The write path: put\<close>

text \<open>
  C1 (the code departs from the claim). The claim: when the first conditional write is
  rejected and the re-fetch finds a document, the retry carries the fetched document
  overwritten by the caller's fields, under the fetched revision; for the stored
  \<^verbatim>\<open>{_id: "a", _rev: "2", x: 9, y: 9}\<close> and the caller's \<^verbatim>\<open>{_id: "a", _rev: "1", x: 2}\<close>
  it carries \<^verbatim>\<open>_rev: "2"\<close> and succeeds. The code: \<^verbatim>\<open>current_doc.update(doc)\<close>
  (db.py 77) overwrites the fetched \<^verbatim>\<open>_rev\<close> with the caller's, as it does every other
  field, so the retry below carries \<^verbatim>\<open>_rev: "1"\<close>, the store rejects it again, and
  \<^verbatim>\<open>res['rev']\<close> (db.py 83) raises \<^verbatim>\<open>KeyError\<close> on the conflict body. The three requests
  the session receives are the first write, the re-fetch and the retry.
\<close>

theorem put_retry_carries_caller_rev:
  "Db_put (traced couch) caller_doc (stored_D2, [])
     = (Inl (Exc KeyError ([CHR 0x27] @ ''rev'' @ [CHR 0x27]) None),
        (stored_D2,
         [Request PUT (Url_doc (VStr ''a'')) [] (Some (VDict caller_doc)),
          Request GET (Url_doc (VStr ''a'')) [] None,
          Request PUT (Url_doc (VStr ''a'')) []
            (Some (VDict [(VStr ''_id'', VStr ''a''), (VStr ''_rev'', VStr ''1''),
                          (VStr ''x'', VInt 2), (VStr ''y'', VInt 9)]))]))"
  by (simp add: Db_put_def Db_get_def traced_def stored_D2_def caller_doc_def json_def
      put_result_def sum_bind_def getitem_def dict_update_def conflict_body_def)

text \<open>
  C2 (the code departs from the claim). The claim: an upsert whose retry fails returns
  absent and never raises. The code checks the status of the first write (db.py 73) but
  not of the retry (db.py 78): it decodes whatever came back and subscripts
  \<^verbatim>\<open>['rev']\<close>. Here the caller's document has no revision, the first write is
  rejected, the re-fetch finds revision 2, and the retry is rejected because another
  writer was faster: the call raises \<^verbatim>\<open>KeyError\<close>.
\<close>

theorem put_failed_retry_raises:
  "Db_put replay [(VStr ''_id'', VStr ''a''), (VStr ''x'', VInt 2)] racing_replies
     = (Inl (Exc KeyError ([CHR 0x27] @ ''rev'' @ [CHR 0x27]) None), [])"
  by (simp add: Db_put_def Db_get_def racing_replies_def json_def
      put_result_def sum_bind_def getitem_def dict_update_def conflict_body_def)

section \<open>Transport failures: get, post, find\<close>

text \<open>
  C5. On a response whose status is not a success, \<^verbatim>\<open>get\<close> and \<^verbatim>\<open>post\<close> return
  \<^verbatim>\<open>None\<close> and \<^verbatim>\<open>find\<close> returns the empty list, none of them raising; and when the
  store answers a selector that matches nothing (status 200, an empty \<^verbatim>\<open>docs\<close> list),
  \<^verbatim>\<open>find\<close> returns the empty list.
\<close>

theorem fail_closed_to_empty:
  "(session (Request GET (Url_doc ident) [] None) s = (Inr res, s') \<and> non_success res
      \<longrightarrow> Db_get session ident s = (Inr VNone, s'))
   \<and> (session (Request POST Url_db [] (Some (VDict doc))) s = (Inr res, s') \<and> non_success res
      \<longrightarrow> Db_post session doc s = (Inr None, s'))
   \<and> (session (find_request query skip limit flds) s = (Inr res, s') \<and> non_success res
      \<longrightarrow> Db_find session query skip limit flds s = (Inr (VList []), s'))
   \<and> (session (find_request query skip limit flds) s = (Inr res, s') \<and> status_code res = 200
        \<and> body res = Some (VDict kvs) \<and> map_of kvs (VStr ''docs'') = Some (VList [])
      \<longrightarrow> Db_find session query skip limit flds s = (Inr (VList []), s'))"
  by (auto simp: Db_get_def Db_post_def Db_find_def non_success_def json_def sum_bind_def dict_get_def)

theorem fail_closed_to_empty_witness:
  "Db_get replay (VStr ''a'') [Inr (Response 404 (Some not_found_body))] = (Inr VNone, [])
   \<and> Db_post replay [(VStr ''x'', VInt 1)] [Inr (Response 500 None)] = (Inr None, [])
   \<and> Db_find replay (VDict []) (VInt 0) (VInt 50000) VNone [Inr (Response 400 None)]
       = (Inr (VList []), [])
   \<and> Db_find replay (VDict [(VStr ''x'', VInt 7)]) (VInt 0) (VInt 50000) VNone
         [Inr (Response 200 (Some (VDict [(VStr ''docs'', VList [])])))]
       = (Inr (VList []), [])"
proof -
  have a: "Db_get replay (VStr ''a'') [Inr (Response 404 (Some not_found_body))] = (Inr VNone, [])"
    using fail_closed_to_empty [of replay "VStr ''a''" "[Inr (Response 404 (Some not_found_body))]"
        "Response 404 (Some not_found_body)" "[]"]
    by (simp add: non_success_def)
  have b: "Db_post replay [(VStr ''x'', VInt 1)] [Inr (Response 500 None)] = (Inr None, [])"
    using fail_closed_to_empty [of replay _ "[Inr (Response 500 None)]" "Response 500 None" "[]"
        "[(VStr ''x'', VInt 1)]"]
    by (simp add: non_success_def)
  have c: "Db_find replay (VDict []) (VInt 0) (VInt 50000) VNone [Inr (Response 400 None)]
       = (Inr (VList []), [])"
    using fail_closed_to_empty [of replay _ "[Inr (Response 400 None)]" "Response 400 None" "[]" _
        "VDict []" "VInt 0" "VInt 50000" VNone]
    by (simp add: non_success_def)
  have d: "Db_find replay (VDict [(VStr ''x'', VInt 7)]) (VInt 0) (VInt 50000) VNone
         [Inr (Response 200 (Some (VDict [(VStr ''docs'', VList [])])))]
       = (Inr (VList []), [])"
    using fail_closed_to_empty [of replay _
        "[Inr (Response 200 (Some (VDict [(VStr ''docs'', VList [])])))]"
        "Response 200 (Some (VDict [(VStr ''docs'', VList [])]))" "[]" _
        "VDict [(VStr ''x'', VInt 7)]" "VInt 0" "VInt 50000" VNone "[(VStr ''docs'', VList [])]"]
    by simp
  from a b c d show ?thesis by simp
qed

section \<open>Batched writes: bulk_update\<close>

lemma assign_ids_by_position:
  "length ids = length docs \<Longrightarrow> length revs = length docs \<Longrightarrow>
   length es = i + length docs \<Longrightarrow>
   (\<forall>j<length docs. \<exists>kvs. es ! (i + j) = VDict kvs
        \<and> map_of kvs (VStr ''id'') = Some (ids ! j) \<and> map_of kvs (VStr ''rev'') = Some (revs ! j)) \<Longrightarrow>
   assign_ids (VList es) i docs
     = Inr (map (\<lambda>(doc, new_id, new_rev).
                   dict_update doc [(VStr ''_id'', new_id), (VStr ''_rev'', new_rev)])
                (zip docs (zip ids revs)))"
proof (induction docs arbitrary: i ids revs)
  case Nil
  then show ?case by simp
next
  case (Cons doc docs)
  from Cons.prems(1) obtain a ids' where ids: "ids = a # ids'" and li: "length ids' = length docs"
    by (cases ids) auto
  from Cons.prems(2) obtain b revs' where revs: "revs = b # revs'" and lr: "length revs' = length docs"
    by (cases revs) auto
  from Cons.prems(3) have i: "i < length es" and le: "length es = Suc i + length docs" by simp_all
  from Cons.prems(4) have "\<exists>kvs. es ! (i + 0) = VDict kvs
        \<and> map_of kvs (VStr ''id'') = Some (ids ! 0) \<and> map_of kvs (VStr ''rev'') = Some (revs ! 0)"
    by (rule allE [where x = 0]) simp
  with ids revs obtain kvs where e: "es ! i = VDict kvs" "map_of kvs (VStr ''id'') = Some a"
      "map_of kvs (VStr ''rev'') = Some b"
    by auto
  have rest: "\<forall>j<length docs. \<exists>kvs. es ! (Suc i + j) = VDict kvs
        \<and> map_of kvs (VStr ''id'') = Some (ids' ! j) \<and> map_of kvs (VStr ''rev'') = Some (revs' ! j)"
  proof (intro allI impI)
    fix j assume "j < length docs"
    then have "Suc j < length (doc # docs)" by simp
    with Cons.prems(4) have "\<exists>kvs. es ! (i + Suc j) = VDict kvs
        \<and> map_of kvs (VStr ''id'') = Some (ids ! Suc j) \<and> map_of kvs (VStr ''rev'') = Some (revs ! Suc j)"
      by blast
    with ids revs show "\<exists>kvs. es ! (Suc i + j) = VDict kvs
        \<and> map_of kvs (VStr ''id'') = Some (ids' ! j) \<and> map_of kvs (VStr ''rev'') = Some (revs' ! j)"
      by simp
  qed
  from Cons.IH [OF li lr le rest] i e ids revs show ?case
    by (simp add: getindex_def getitem_def)
qed

text \<open>
  C6, as stated, fails: a response can align with the batch entry by entry and still
  hold an entry without a \<^verbatim>\<open>rev\<close>, as the store's answer for a document in conflict
  does. \<^verbatim>\<open>result[i]['rev']\<close> (db.py 99) then raises \<^verbatim>\<open>KeyError\<close>, and no document is
  returned.
\<close>

theorem bulk_update_entry_without_rev_raises:
  "Db_bulk_update (traced replay) [caller_doc] ([Inr (Response 201 (Some (VList conflict_entries)))], [])
     = (Inl (Exc KeyError ([CHR 0x27] @ ''rev'' @ [CHR 0x27]) None),
        ([], [Request POST Url_bulk_docs [] (Some (VDict [(VStr ''docs'', VList [VDict caller_doc])]))]))"
  by (simp add: Db_bulk_update_def bulk_request_def strip_rev_def dict_get_def caller_doc_def
      traced_def json_def sum_bind_def conflict_entries_def getindex_def getitem_def)

text \<open>
  C6, amended. \<^verbatim>\<open>bulk_update\<close> makes one request: a \<^verbatim>\<open>POST\<close> to \<^verbatim>\<open>_bulk_docs\<close>
  whose body is \<^verbatim>\<open>{"docs": sent}\<close>, where \<open>sent\<close> is the batch in order with the
  \<^verbatim>\<open>_rev\<close> item removed from every document whose \<^verbatim>\<open>_rev\<close> is falsy; a document
  with a null, empty or missing \<^verbatim>\<open>_rev\<close> is sent without one, a document with a
  revision is sent as it is, and no other field changes. When the response is a list as
  long as the batch whose \<open>j\<close>-th entry is an object with an \<^verbatim>\<open>id\<close> and a \<^verbatim>\<open>rev\<close>,
  the call returns as many documents as it was given, in the same order: the \<open>j\<close>-th is
  the \<open>j\<close>-th document sent, updated with that \<^verbatim>\<open>id\<close> as \<^verbatim>\<open>_id\<close> and that \<^verbatim>\<open>rev\<close>
  as \<^verbatim>\<open>_rev\<close>, every other field being that of the \<open>j\<close>-th input.
\<close>

theorem bulk_update_by_position:
  assumes sent: "sent = map (\<lambda>doc. if truthy (dict_get doc ''_rev'' VNone) then doc
                               else filter (\<lambda>p. fst p \<noteq> VStr ''_rev'') doc) docs"
    and rq: "rq = Request POST Url_bulk_docs [] (Some (VDict [(VStr ''docs'', VList (map VDict sent))]))"
    and reply: "session rq s = (Inr res, s')"
    and body: "body res = Some (VList es)"
    and lens: "length es = length docs" "length ids = length docs" "length revs = length docs"
    and entries: "\<forall>j<length docs. \<exists>kvs. es ! j = VDict kvs
           \<and> map_of kvs (VStr ''id'') = Some (ids ! j) \<and> map_of kvs (VStr ''rev'') = Some (revs ! j)"
  shows "\<exists>out. Db_bulk_update (traced session) docs (s, []) = (Inr out, (s', [rq]))
     \<and> out = map (\<lambda>(doc, new_id, new_rev).
                     dict_update doc [(VStr ''_id'', new_id), (VStr ''_rev'', new_rev)])
                  (zip sent (zip ids revs))
     \<and> length out = length docs
     \<and> (\<forall>j<length docs.
            (dict_get (docs ! j) ''_rev'' VNone = VNone \<or> dict_get (docs ! j) ''_rev'' VNone = VStr []
               \<longrightarrow> map_of (sent ! j) (VStr ''_rev'') = None)
          \<and> (truthy (dict_get (docs ! j) ''_rev'' VNone) \<longrightarrow> sent ! j = docs ! j)
          \<and> (\<forall>k. k \<noteq> VStr ''_rev'' \<longrightarrow> map_of (sent ! j) k = map_of (docs ! j) k)
          \<and> map_of (out ! j) (VStr ''_id'') = Some (ids ! j)
          \<and> map_of (out ! j) (VStr ''_rev'') = Some (revs ! j)
          \<and> (\<forall>k. k \<noteq> VStr ''_id'' \<and> k \<noteq> VStr ''_rev'' \<longrightarrow> map_of (out ! j) k = map_of (docs ! j) k))"
proof -
  have strip: "map strip_rev docs = sent"
    by (simp add: sent strip_rev_def dict_pop_def)
  have breq: "bulk_request sent = rq"
    by (simp add: bulk_request_def rq)
  have ls: "length sent = length docs" by (simp add: sent)
  let ?out = "map (\<lambda>(doc, new_id, new_rev).
                     dict_update doc [(VStr ''_id'', new_id), (VStr ''_rev'', new_rev)])
                  (zip sent (zip ids revs))"
  have "assign_ids (VList es) 0 sent = Inr ?out"
  proof (rule assign_ids_by_position)
    show "length ids = length sent" using lens ls by simp
    show "length revs = length sent" using lens ls by simp
    show "length es = 0 + length sent" using lens ls by simp
    show "\<forall>j<length sent. \<exists>kvs. es ! (0 + j) = VDict kvs
        \<and> map_of kvs (VStr ''id'') = Some (ids ! j) \<and> map_of kvs (VStr ''rev'') = Some (revs ! j)"
      using entries ls by simp
  qed
  then have run: "Db_bulk_update (traced session) docs (s, []) = (Inr ?out, (s', [rq]))"
    using reply body
    by (simp add: Db_bulk_update_def strip breq traced_def json_def sum_bind_def)
  have lo: "length ?out = length docs" using lens ls by simp
  have per: "\<forall>j<length docs.
            (dict_get (docs ! j) ''_rev'' VNone = VNone \<or> dict_get (docs ! j) ''_rev'' VNone = VStr []
               \<longrightarrow> map_of (sent ! j) (VStr ''_rev'') = None)
          \<and> (truthy (dict_get (docs ! j) ''_rev'' VNone) \<longrightarrow> sent ! j = docs ! j)
          \<and> (\<forall>k. k \<noteq> VStr ''_rev'' \<longrightarrow> map_of (sent ! j) k = map_of (docs ! j) k)
          \<and> map_of (?out ! j) (VStr ''_id'') = Some (ids ! j)
          \<and> map_of (?out ! j) (VStr ''_rev'') = Some (revs ! j)
          \<and> (\<forall>k. k \<noteq> VStr ''_id'' \<and> k \<noteq> VStr ''_rev'' \<longrightarrow> map_of (?out ! j) k = map_of (docs ! j) k)"
  proof (intro allI impI)
    fix j assume j: "j < length docs"
    have sj: "sent ! j = strip_rev (docs ! j)" using j strip [symmetric] by simp
    have oj: "?out ! j = dict_update (sent ! j) [(VStr ''_id'', ids ! j), (VStr ''_rev'', revs ! j)]"
      using j lens ls by simp
    have keep: "\<forall>k. k \<noteq> VStr ''_rev'' \<longrightarrow> map_of (sent ! j) k = map_of (docs ! j) k"
      by (simp add: sj strip_rev_def map_of_dict_pop)
    have gone: "dict_get (docs ! j) ''_rev'' VNone = VNone \<or> dict_get (docs ! j) ''_rev'' VNone = VStr []
               \<longrightarrow> map_of (sent ! j) (VStr ''_rev'') = None"
      by (auto simp: sj strip_rev_def map_of_dict_pop)
    have same: "truthy (dict_get (docs ! j) ''_rev'' VNone) \<longrightarrow> sent ! j = docs ! j"
      by (simp add: sj strip_rev_def)
    let ?d = "dict_update (sent ! j) [(VStr ''_id'', ids ! j), (VStr ''_rev'', revs ! j)]"
    have d1: "map_of ?d (VStr ''_id'') = Some (ids ! j)"
      and d2: "map_of ?d (VStr ''_rev'') = Some (revs ! j)"
      and d3: "\<forall>k. k \<noteq> VStr ''_id'' \<and> k \<noteq> VStr ''_rev'' \<longrightarrow> map_of ?d k = map_of (docs ! j) k"
      using keep by (simp_all add: dict_update_def map_of_dict_set)
    have o1: "map_of (?out ! j) (VStr ''_id'') = Some (ids ! j)"
      and o2: "map_of (?out ! j) (VStr ''_rev'') = Some (revs ! j)"
      and o3: "\<forall>k. k \<noteq> VStr ''_id'' \<and> k \<noteq> VStr ''_rev'' \<longrightarrow> map_of (?out ! j) k = map_of (docs ! j) k"
      using d1 d2 d3 by (simp_all only: oj)
    show "(dict_get (docs ! j) ''_rev'' VNone = VNone \<or> dict_get (docs ! j) ''_rev'' VNone = VStr []
               \<longrightarrow> map_of (sent ! j) (VStr ''_rev'') = None)
          \<and> (truthy (dict_get (docs ! j) ''_rev'' VNone) \<longrightarrow> sent ! j = docs ! j)
          \<and> (\<forall>k. k \<noteq> VStr ''_rev'' \<longrightarrow> map_of (sent ! j) k = map_of (docs ! j) k)
          \<and> map_of (?out ! j) (VStr ''_id'') = Some (ids ! j)
          \<and> map_of (?out ! j) (VStr ''_rev'') = Some (revs ! j)
          \<and> (\<forall>k. k \<noteq> VStr ''_id'' \<and> k \<noteq> VStr ''_rev'' \<longrightarrow> map_of (?out ! j) k = map_of (docs ! j) k)"
      using keep gone same o1 o2 o3 by blast
  qed
  from run lo per show ?thesis by blast
qed

theorem bulk_update_by_position_witness:
  "Db_bulk_update (traced replay) batch_docs ([Inr (Response 201 (Some (VList batch_entries)))], [])
     = (Inr [[(VStr ''x'', VInt 1), (VStr ''_id'', VStr ''i1''), (VStr ''_rev'', VStr ''r1'')],
             [(VStr ''x'', VInt 2), (VStr ''_id'', VStr ''i2''), (VStr ''_rev'', VStr ''r2'')],
             [(VStr ''x'', VInt 3), (VStr ''_id'', VStr ''i3''), (VStr ''_rev'', VStr ''r3'')],
             [(VStr ''_id'', VStr ''d''), (VStr ''_rev'', VStr ''8''), (VStr ''x'', VInt 4)]],
        ([], [Request POST Url_bulk_docs []
                (Some (VDict [(VStr ''docs'',
                   VList [VDict [(VStr ''x'', VInt 1)], VDict [(VStr ''x'', VInt 2)],
                          VDict [(VStr ''x'', VInt 3)],
                          VDict [(VStr ''_id'', VStr ''d''), (VStr ''_rev'', VStr ''7''),
                                 (VStr ''x'', VInt 4)]])]))]))"
proof -
  let ?sent = "[[(VStr ''x'', VInt 1)], [(VStr ''x'', VInt 2)], [(VStr ''x'', VInt 3)],
                [(VStr ''_id'', VStr ''d''), (VStr ''_rev'', VStr ''7''), (VStr ''x'', VInt 4)]]"
  let ?rq = "Request POST Url_bulk_docs [] (Some (VDict [(VStr ''docs'', VList (map VDict ?sent))]))"
  let ?res = "Response 201 (Some (VList batch_entries))"
  let ?ids = "[VStr ''i1'', VStr ''i2'', VStr ''i3'', VStr ''d'']"
  let ?revs = "[VStr ''r1'', VStr ''r2'', VStr ''r3'', VStr ''8'']"
  have a: "?sent = map (\<lambda>doc. if truthy (dict_get doc ''_rev'' VNone) then doc
                               else filter (\<lambda>p. fst p \<noteq> VStr ''_rev'') doc) batch_docs"
    by (simp add: batch_docs_def dict_get_def)
  have b: "replay ?rq [Inr ?res] = (Inr ?res, [])" by simp
  have c: "body ?res = Some (VList batch_entries)" by simp
  have d: "length batch_entries = length batch_docs" "length ?ids = length batch_docs"
      "length ?revs = length batch_docs"
    by (simp_all add: batch_entries_def batch_docs_def)
  have e: "\<forall>j<length batch_docs. \<exists>kvs. batch_entries ! j = VDict kvs
           \<and> map_of kvs (VStr ''id'') = Some (?ids ! j) \<and> map_of kvs (VStr ''rev'') = Some (?revs ! j)"
  proof (intro allI impI)
    fix j assume "j < length batch_docs"
    then have "j = 0 \<or> j = 1 \<or> j = 2 \<or> j = 3" by (auto simp: batch_docs_def)
    then show "\<exists>kvs. batch_entries ! j = VDict kvs
           \<and> map_of kvs (VStr ''id'') = Some (?ids ! j) \<and> map_of kvs (VStr ''rev'') = Some (?revs ! j)"
      by (auto simp: batch_entries_def)
  qed
  from bulk_update_by_position [of ?sent batch_docs ?rq replay "[Inr ?res]" ?res "[]" batch_entries
      ?ids ?revs, OF a refl b c d e]
  show ?thesis by (auto simp: dict_update_def)
qed

section \<open>The change feed: changes\<close>

lemma changes_loop_add:
  "changes_loop session rq k s = ((ds, lg, Running), s1) \<Longrightarrow>
   changes_loop session rq (k + m) s =
     (case changes_loop session rq m s1 of ((ds', lg', fin), s2) \<Rightarrow> ((ds @ ds', lg', fin), s2))"
proof (induction k arbitrary: s ds)
  case 0
  then show ?case by (simp split: prod.splits)
next
  case (Suc k)
  show ?case
  proof (cases "session rq s")
    case (Pair r s')
    show ?thesis
    proof (cases r)
      case (Inl e)
      with Pair Suc.prems show ?thesis by simp
    next
      case (Inr response)
      obtain cs ce where pc: "poll_cycle response = (cs, ce)" by (cases "poll_cycle response")
      show ?thesis
      proof (cases ce)
        case (Some e)
        with Pair Inr pc Suc.prems show ?thesis by simp
      next
        case None
        obtain ds0 lg0 fin0 s0 where r0: "changes_loop session rq k s' = ((ds0, lg0, fin0), s0)"
          by (metis surj_pair)
        with Pair Inr pc None Suc.prems have eqs: "ds = cs @ ds0" "fin0 = Running" "s0 = s1" "lg0 = lg"
          by simp_all
        from r0 eqs have "changes_loop session rq k s' = ((ds0, lg, Running), s1)" by simp
        from Suc.IH [OF this] show ?thesis
          using Pair Inr pc None eqs by (simp split: prod.splits)
      qed
    qed
  qed
qed

lemma changes_loop_running_trace:
  "changes_loop (traced session) rq k (s, tr) = ((ds, lg, Running), st1) \<Longrightarrow>
   snd st1 = tr @ replicate k rq"
proof (induction k arbitrary: s tr ds lg)
  case 0
  then show ?case by auto
next
  case (Suc k)
  obtain r s' where step: "session rq s = (r, s')" by (cases "session rq s")
  then have tstep: "traced session rq (s, tr) = (r, (s', tr @ [rq]))" by (simp add: traced_def)
  show ?case
  proof (cases r)
    case (Inl e)
    with tstep Suc.prems show ?thesis by simp
  next
    case (Inr response)
    obtain cs ce where pc: "poll_cycle response = (cs, ce)" by (cases "poll_cycle response")
    show ?thesis
    proof (cases ce)
      case (Some e)
      with tstep Inr pc Suc.prems show ?thesis by simp
    next
      case None
      obtain ds0 lg0 fin0 s0 where r0:
        "changes_loop (traced session) rq k (s', tr @ [rq]) = ((ds0, lg0, fin0), s0)"
        by (metis surj_pair)
      with tstep Inr pc None Suc.prems have eqs: "fin0 = Running" "s0 = st1"
        by simp_all
      from r0 eqs have "changes_loop (traced session) rq k (s', tr @ [rq]) = ((ds0, lg0, Running), st1)"
        by simp
      from Suc.IH [OF this] show ?thesis by (simp add: replicate_append_same)
    qed
  qed
qed

text \<open>
  C8, as stated, fails: the request of a poll cycle is made outside the \<^verbatim>\<open>try\<close>
  (db.py 212-213), so an exception of the transport itself reaches the consumer and
  nothing is logged.
\<close>

theorem changes_transport_error_propagates:
  "Db_changes replay VNone 3 [Inl (Exc ConnectionError ''connection refused'' None)]
     = (([], [], Raised (Exc ConnectionError ''connection refused'' None)), [])"
  by (simp add: Db_changes_def numeral_3_eq_3)

text \<open>
  C8, amended. After \<open>k\<close> cycles that went well: when the response of the next cycle
  cannot be processed (its body does not decode, has no \<^verbatim>\<open>results\<close>, \<^verbatim>\<open>results\<close>
  cannot be iterated, or an entry has no \<^verbatim>\<open>doc\<close>), the generator ends after yielding
  the documents before the failure and logging the error, it does not raise, and however
  long the consumer goes on, the session has received exactly \<open>k + 1\<close> requests: there
  is no reconnection. When instead the request of the next cycle itself raises, the
  exception reaches the consumer and nothing is logged.
\<close>

theorem changes_failure_ends_feed:
  assumes "Db_changes (traced session) query k (s, []) = ((ds, lg, Running), st1)"
  shows "(traced session (changes_request query) st1 = (Inr response, st2)
            \<and> poll_cycle response = (ds', Some e)
          \<longrightarrow> Db_changes (traced session) query (Suc (k + n)) (s, [])
                = ((ds @ ds', [''Error: '' @ exc_str e], Stopped), st2)
              \<and> snd st2 = replicate (Suc k) (changes_request query))
       \<and> (traced session (changes_request query) st1 = (Inl err, st2)
          \<longrightarrow> Db_changes (traced session) query (Suc (k + n)) (s, [])
                = ((ds, [], Raised err), st2))"
proof (intro conjI impI)
  note run = assms [unfolded Db_changes_def]
  assume "traced session (changes_request query) st1 = (Inr response, st2)
            \<and> poll_cycle response = (ds', Some e)"
  then have step: "traced session (changes_request query) st1 = (Inr response, st2)"
    and fail: "poll_cycle response = (ds', Some e)" by simp_all
  have one: "changes_loop (traced session) (changes_request query) (Suc n) st1
               = ((ds', [''Error: '' @ exc_str e], Stopped), st2)"
    using step fail by simp
  have "changes_loop (traced session) (changes_request query) (k + Suc n) (s, [])
          = ((ds @ ds', [''Error: '' @ exc_str e], Stopped), st2)"
    using changes_loop_add [OF run, of "Suc n"] one by simp
  then show "Db_changes (traced session) query (Suc (k + n)) (s, [])
                = ((ds @ ds', [''Error: '' @ exc_str e], Stopped), st2)"
    by (simp add: Db_changes_def)
  have "snd st1 = replicate k (changes_request query)"
    using changes_loop_running_trace [OF run] by simp
  then show "snd st2 = replicate (Suc k) (changes_request query)"
    using step by (auto simp: traced_def replicate_append_same split: prod.splits)
next
  note run = assms [unfolded Db_changes_def]
  assume step: "traced session (changes_request query) st1 = (Inl err, st2)"
  have one: "changes_loop (traced session) (changes_request query) (Suc n) st1
               = (([], [], Raised err), st2)"
    using step by simp
  have "changes_loop (traced session) (changes_request query) (k + Suc n) (s, [])
          = ((ds, [], Raised err), st2)"
    using changes_loop_add [OF run, of "Suc n"] one by simp
  then show "Db_changes (traced session) query (Suc (k + n)) (s, [])
                = ((ds, [], Raised err), st2)"
    by (simp add: Db_changes_def)
qed

theorem changes_failure_ends_feed_witness:
  "Db_changes (traced replay) VNone 5 (feed_replies, [])
     = (([VInt 1, VInt 2],
         [''Error: '' @ [CHR 0x27] @ ''int'' @ [CHR 0x27] @ '' object is not subscriptable''],
         Stopped),
        ([Inr (Response 200 (Some (VDict [(VStr ''results'', VList [VDict [(VStr ''doc'', VInt 4)]])])))],
         [changes_request VNone, changes_request VNone]))
   \<and> Db_changes (traced replay) VNone 5 (take 1 feed_replies, [])
     = (([VInt 1], [], Raised (Exc ConnectionError ''connection refused'' None)),
        ([], [changes_request VNone, changes_request VNone]))"
proof -
  let ?good = "Response 200 (Some (VDict [(VStr ''results'', VList [VDict [(VStr ''doc'', VInt 1)]])]))"
  let ?bad = "Response 200 (Some (VDict [(VStr ''results'',
             VList [VDict [(VStr ''doc'', VInt 2)], VInt 3])]))"
  let ?last = "Inr (Response 200 (Some (VDict [(VStr ''results'', VList [VDict [(VStr ''doc'', VInt 4)]])]))) :: py_error + response"
  have a: "Db_changes (traced replay) VNone 1 (feed_replies, [])
             = (([VInt 1], [], Running), ([Inr ?bad, ?last], [changes_request VNone]))"
    by (simp add: Db_changes_def feed_replies_def traced_def poll_cycle_def json_def getitem_def
        py_iter_def)
  have b: "traced replay (changes_request VNone) ([Inr ?bad, ?last], [changes_request VNone])
             = (Inr ?bad, ([?last], [changes_request VNone, changes_request VNone]))"
    by (simp add: traced_def)
  have c: "poll_cycle ?bad
             = ([VInt 2], Some (Exc TypeError ([CHR 0x27] @ ''int'' @ [CHR 0x27] @ '' object is not subscriptable'') None))"
    by (simp add: poll_cycle_def json_def getitem_def py_iter_def)
  have first: "Db_changes (traced replay) VNone 5 (feed_replies, [])
     = (([VInt 1, VInt 2],
         [''Error: '' @ [CHR 0x27] @ ''int'' @ [CHR 0x27] @ '' object is not subscriptable''],
         Stopped),
        ([?last], [changes_request VNone, changes_request VNone]))"
    using changes_failure_ends_feed [OF a, of ?bad "([?last], [changes_request VNone, changes_request VNone])"
        "[VInt 2]" _ 3] b c
    by simp
  have a': "Db_changes (traced replay) VNone 1 (take 1 feed_replies, [])
             = (([VInt 1], [], Running), ([], [changes_request VNone]))"
    by (simp add: Db_changes_def feed_replies_def traced_def poll_cycle_def json_def getitem_def
        py_iter_def)
  have b': "traced replay (changes_request VNone) ([], [changes_request VNone])
             = (Inl (Exc ConnectionError ''connection refused'' None),
                ([], [changes_request VNone, changes_request VNone]))"
    by (simp add: traced_def)
  have second: "Db_changes (traced replay) VNone 5 (take 1 feed_replies, [])
     = (([VInt 1], [], Raised (Exc ConnectionError ''connection refused'' None)),
        ([], [changes_request VNone, changes_request VNone]))"
    using changes_failure_ends_feed [OF a', of _ "([], [changes_request VNone, changes_request VNone])"
        _ _ 3 "Exc ConnectionError ''connection refused'' None"] b'
    by simp
  from first second show ?thesis by simp
qed

section \<open>The object mapper: save\<close>

text \<open>
  C10. When \<^verbatim>\<open>put\<close> returns \<^verbatim>\<open>None\<close>, \<^verbatim>\<open>save\<close> raises the \<^verbatim>\<open>TypeError\<close> of
  subscripting \<^verbatim>\<open>None\<close>. When \<^verbatim>\<open>save\<close> returns, \<^verbatim>\<open>put\<close> has returned a document,
  and the instance returned is the caller's with \<^verbatim>\<open>_id\<close> and \<^verbatim>\<open>_rev\<close> set to that
  document's.
\<close>

theorem save_raises_on_absent:
  "(serialize lib self = Inr doc \<and> Db_put session doc s = (Inr None, s')
      \<longrightarrow> Orm_save lib session self s
            = (Inl (Exc TypeError ([CHR 0x27] @ ''NoneType'' @ [CHR 0x27] @ '' object is not subscriptable'')
                      None), s'))
   \<and> (Orm_save lib session self s = (Inr inst, s')
      \<longrightarrow> (\<exists>doc stored new_id new_rev.
             serialize lib self = Inr doc
           \<and> Db_put session doc s = (Inr (Some stored), s')
           \<and> map_of stored (VStr ''_id'') = Some new_id
           \<and> map_of stored (VStr ''_rev'') = Some new_rev
           \<and> inst = setattr (setattr self ''_id'' new_id) ''_rev'' new_rev
           \<and> getattr inst ''_id'' = Some new_id
           \<and> getattr inst ''_rev'' = Some new_rev))"
proof (intro conjI impI)
  assume "serialize lib self = Inr doc \<and> Db_put session doc s = (Inr None, s')"
  then show "Orm_save lib session self s
            = (Inl (Exc TypeError ([CHR 0x27] @ ''NoneType'' @ [CHR 0x27] @ '' object is not subscriptable'')
                      None), s')"
    by (simp add: Orm_save_def sum_bind_def getitem_def)
next
  assume ok: "Orm_save lib session self s = (Inr inst, s')"
  then obtain doc where ser: "serialize lib self = Inr doc"
    by (cases "serialize lib self") (auto simp: Orm_save_def)
  then obtain n fvs where self: "self = VObj n fvs"
    by (cases self) (auto simp: serialize_def)
  obtain r s1 where put: "Db_put session doc s = (r, s1)" by (cases "Db_put session doc s")
  from ok ser put obtain ro where r: "r = Inr ro" and s1: "s1 = s'"
    by (cases r) (auto simp: Orm_save_def Let_def)
  from ok ser put r obtain stored where ro: "ro = Some stored"
    by (cases ro) (auto simp: Orm_save_def sum_bind_def getitem_def)
  from ok ser put r ro obtain new_id where i: "map_of stored (VStr ''_id'') = Some new_id"
    by (cases "map_of stored (VStr ''_id'')") (auto simp: Orm_save_def sum_bind_def getitem_def)
  from ok ser put r ro i obtain new_rev where v: "map_of stored (VStr ''_rev'') = Some new_rev"
    by (cases "map_of stored (VStr ''_rev'')") (auto simp: Orm_save_def sum_bind_def getitem_def)
  from ok ser put r ro i v have inst: "inst = setattr (setattr self ''_id'' new_id) ''_rev'' new_rev"
    by (simp add: Orm_save_def sum_bind_def getitem_def)
  have "getattr inst ''_id'' = Some new_id" "getattr inst ''_rev'' = Some new_rev"
    by (simp_all add: inst self map_of_dict_set)
  with ser put r ro s1 i v inst
  show "\<exists>doc stored new_id new_rev.
             serialize lib self = Inr doc
           \<and> Db_put session doc s = (Inr (Some stored), s')
           \<and> map_of stored (VStr ''_id'') = Some new_id
           \<and> map_of stored (VStr ''_rev'') = Some new_rev
           \<and> inst = setattr (setattr self ''_id'' new_id) ''_rev'' new_rev
           \<and> getattr inst ''_id'' = Some new_id
           \<and> getattr inst ''_rev'' = Some new_rev"
    by blast
qed

theorem save_raises_on_absent_witness:
  "Db_put couch [(VStr ''_id'', VStr ''zz''), (VStr ''_rev'', VStr ''7''), (VStr ''x'', VInt 2)] stored_D2
     = (Inr None, stored_D2)
   \<and> Orm_save lib0 couch stale_instance stored_D2
     = (Inl (Exc TypeError ([CHR 0x27] @ ''NoneType'' @ [CHR 0x27] @ '' object is not subscriptable'')
               None), stored_D2)
   \<and> Orm_save lib0 couch fresh_instance stored_D2
     = (Inr (VObj ''Item'' [(''_id'', VStr ''a''), (''_rev'', VStr ''3''), (''x'', VInt 2)]),
        ([(VStr ''a'', [(VStr ''_id'', VStr ''a''), (VStr ''_rev'', VStr ''3''),
                        (VStr ''x'', VInt 2), (VStr ''y'', VInt 9)])], [VStr ''4'']))
   \<and> getattr (VObj ''Item'' [(''_id'', VStr ''a''), (''_rev'', VStr ''3''), (''x'', VInt 2)]) ''_rev''
     = Some (VStr ''3'')"
proof -
  let ?doc = "[(VStr ''_id'', VStr ''zz''), (VStr ''_rev'', VStr ''7''), (VStr ''x'', VInt 2)]"
  have ser: "serialize lib0 stale_instance = Inr ?doc"
    by (simp add: serialize_def stale_instance_def dict_of_items_def dict_update_def)
  have put: "Db_put couch ?doc stored_D2 = (Inr None, stored_D2)"
    by (simp add: Db_put_def Db_get_def stored_D2_def)
  have a: "Orm_save lib0 couch stale_instance stored_D2
     = (Inl (Exc TypeError ([CHR 0x27] @ ''NoneType'' @ [CHR 0x27] @ '' object is not subscriptable'')
               None), stored_D2)"
    using save_raises_on_absent [of lib0 stale_instance ?doc couch stored_D2 stored_D2] ser put
    by simp
  have run: "Orm_save lib0 couch fresh_instance stored_D2
     = (Inr (VObj ''Item'' [(''_id'', VStr ''a''), (''_rev'', VStr ''3''), (''x'', VInt 2)]),
        ([(VStr ''a'', [(VStr ''_id'', VStr ''a''), (VStr ''_rev'', VStr ''3''),
                        (VStr ''x'', VInt 2), (VStr ''y'', VInt 9)])], [VStr ''4'']))"
    by (simp add: Orm_save_def serialize_def fresh_instance_def dict_of_items_def dict_update_def
        Db_put_def Db_get_def stored_D2_def dict_pop_def json_def put_result_def sum_bind_def
        getitem_def)
  from put a run show ?thesis by simp
qed

section \<open>The marshaller: the field loop of deserialize\<close>

lemma deserialize_fields_error:
  "deserialize_fields lib fs data acc = Inl err \<Longrightarrow>
   \<exists>g tg dg raw e. (g, tg, dg) \<in> set fs \<and> map_of data (VStr g) = Some raw
      \<and> deserialize_value lib tg raw = Inl e \<and> err = field_error g e"
proof (induction fs arbitrary: acc)
  case Nil
  then show ?case by simp
next
  case (Cons p fs)
  obtain f t d where p: "p = (f, t, d)" by (cases p)
  show ?case
  proof (cases "map_of data (VStr f)")
    case None
    with Cons.prems p have "deserialize_fields lib fs data (dict_set f (default_value d) acc) = Inl err"
      by simp
    from Cons.IH [OF this] show ?thesis by auto
  next
    case (Some raw)
    show ?thesis
    proof (cases "deserialize_value lib t raw")
      case (Inl e)
      with Cons.prems p Some have "err = field_error f e" by simp
      with Some Inl p show ?thesis by auto
    next
      case (Inr x)
      with Cons.prems p Some have "deserialize_fields lib fs data (dict_set f x acc) = Inl err"
        by simp
      from Cons.IH [OF this] show ?thesis by auto
    qed
  qed
qed

lemma deserialize_fields_keeps:
  "deserialize_fields lib fs data acc = Inr kw \<Longrightarrow> g \<notin> fst ` set fs \<Longrightarrow>
   map_of kw g = map_of acc g"
proof (induction fs arbitrary: acc)
  case Nil
  then show ?case by simp
next
  case (Cons p fs)
  obtain f t d where p: "p = (f, t, d)" by (cases p)
  from Cons.prems(2) p have ne: "g \<noteq> f" and notin: "g \<notin> fst ` set fs" by auto
  show ?case
  proof (cases "map_of data (VStr f)")
    case None
    with Cons.prems(1) p have "deserialize_fields lib fs data (dict_set f (default_value d) acc) = Inr kw"
      by simp
    from Cons.IH [OF this notin] ne show ?thesis by (simp add: map_of_dict_set)
  next
    case (Some raw)
    with Cons.prems(1) p obtain x where "deserialize_value lib t raw = Inr x"
        and "deserialize_fields lib fs data (dict_set f x acc) = Inr kw"
      by (cases "deserialize_value lib t raw") auto
    from Cons.IH [OF this(2) notin] ne show ?thesis by (simp add: map_of_dict_set)
  qed
qed

lemma deserialize_fields_default:
  "deserialize_fields lib fs data acc = Inr kw \<Longrightarrow> distinct (map fst fs) \<Longrightarrow>
   (f, t, d) \<in> set fs \<Longrightarrow> map_of data (VStr f) = None \<Longrightarrow>
   map_of kw f = Some (default_value d)"
proof (induction fs arbitrary: acc)
  case Nil
  then show ?case by simp
next
  case (Cons p fs)
  obtain f' t' d' where p: "p = (f', t', d')" by (cases p)
  from Cons.prems(2) p have dist: "distinct (map fst fs)" and fresh: "f' \<notin> fst ` set fs" by auto
  show ?case
  proof (cases "(f, t, d) = p")
    case True
    with p Cons.prems(1,4) have run: "deserialize_fields lib fs data (dict_set f (default_value d) acc) = Inr kw"
      by auto
    from True p fresh have "f \<notin> fst ` set fs" by simp
    from deserialize_fields_keeps [OF run this] show ?thesis by (simp add: map_of_dict_set)
  next
    case False
    with Cons.prems(3) have mem: "(f, t, d) \<in> set fs" by simp
    show ?thesis
    proof (cases "map_of data (VStr f')")
      case None
      with Cons.prems(1) p have "deserialize_fields lib fs data (dict_set f' (default_value d') acc) = Inr kw"
        by simp
      from Cons.IH [OF this dist mem Cons.prems(4)] show ?thesis .
    next
      case (Some raw)
      with Cons.prems(1) p obtain x where "deserialize_value lib t' raw = Inr x"
          and "deserialize_fields lib fs data (dict_set f' x acc) = Inr kw"
        by (cases "deserialize_value lib t' raw") auto
      from Cons.IH [OF this(2) dist mem Cons.prems(4)] show ?thesis .
    qed
  qed
qed

lemma deserialize_fields_first_failure:
  "(\<forall>(h, th, dh) \<in> set pre. \<forall>r. map_of data (VStr h) = Some r
        \<longrightarrow> (\<exists>x. deserialize_value lib th r = Inr x)) \<Longrightarrow>
   map_of data (VStr f) = Some raw \<Longrightarrow> deserialize_value lib t raw = Inl e \<Longrightarrow>
   deserialize_fields lib (pre @ (f, t, d) # post) data acc = Inl (field_error f e)"
proof (induction pre arbitrary: acc)
  case Nil
  then show ?case by simp
next
  case (Cons p pre)
  obtain h th dh where p: "p = (h, th, dh)" by (cases p)
  from Cons.prems(1) have rest: "\<forall>(h, th, dh) \<in> set pre. \<forall>r. map_of data (VStr h) = Some r
        \<longrightarrow> (\<exists>x. deserialize_value lib th r = Inr x)" by simp
  note ih = Cons.IH [OF rest Cons.prems(2,3)]
  show ?case
  proof (cases "map_of data (VStr h)")
    case None
    then show ?thesis using p ih by simp
  next
    case (Some r)
    with Cons.prems(1) p obtain x where "deserialize_value lib th r = Inr x" by auto
    with Some p ih show ?thesis by simp
  qed
qed

lemma deserialize_fields_fails:
  "(f, t, d) \<in> set fs \<Longrightarrow> map_of data (VStr f) = Some raw \<Longrightarrow>
   deserialize_value lib t raw = Inl e \<Longrightarrow>
   \<exists>err. deserialize_fields lib fs data acc = Inl err"
proof (induction fs arbitrary: acc)
  case Nil
  then show ?case by simp
next
  case (Cons p fs)
  obtain h th dh where p: "p = (h, th, dh)" by (cases p)
  show ?case
  proof (cases "(f, t, d) = p")
    case True
    with p Cons.prems(2,3) show ?thesis by auto
  next
    case False
    with Cons.prems(1) have mem: "(f, t, d) \<in> set fs" by simp
    note ih = Cons.IH [OF mem Cons.prems(2,3)]
    show ?thesis
    proof (cases "map_of data (VStr h)")
      case None
      with p ih show ?thesis by simp
    next
      case (Some r)
      show ?thesis
      proof (cases "deserialize_value lib th r")
        case (Inl e')
        with Some p show ?thesis by simp
      next
        case (Inr x)
        with Some p ih show ?thesis by simp
      qed
    qed
  qed
qed

lemma product_run:
  "deserialize lib0 ''Product'' product_fields product_doc
     = Inr (VObj ''Product''
              [(''_id'', VStr ''generated-uuid''), (''_rev'', VNone), (''n'', VInt 42),
               (''price'', VDecimal (Decimal False 150 (- 2))), (''note'', VNone),
               (''tags'', VList [])])"
  by (simp add: product_fields_def product_doc_def lib0_def py_int_def py_Decimal_def)

text \<open>
  C4. For a declared field that the document does not have, the instance that
  \<^verbatim>\<open>deserialize\<close> returns holds the field's \<^verbatim>\<open>default\<close>, else the value of its
  \<^verbatim>\<open>default_factory()\<close>, else \<^verbatim>\<open>None\<close>. An error of \<^verbatim>\<open>deserialize\<close> is always the
  failed conversion of another field, one that the document has; when every field that
  the document has converts, \<^verbatim>\<open>deserialize\<close> returns an instance, however many fields
  are missing.
\<close>

theorem missing_field_takes_default:
  assumes "distinct (map fst fs)" and "(f, t, d) \<in> set fs" and "map_of data (VStr f) = None"
  shows "(\<forall>obj. deserialize lib n fs data = Inr obj \<longrightarrow> getattr obj f = Some (default_value d))
       \<and> (\<forall>err. deserialize lib n fs data = Inl err \<longrightarrow>
             (\<exists>g tg dg raw e. (g, tg, dg) \<in> set fs \<and> g \<noteq> f \<and> map_of data (VStr g) = Some raw
                \<and> deserialize_value lib tg raw = Inl e \<and> err = field_error g e))
       \<and> ((\<forall>(g, tg, dg) \<in> set fs. \<forall>raw. map_of data (VStr g) = Some raw
                \<longrightarrow> (\<exists>x. deserialize_value lib tg raw = Inr x))
             \<longrightarrow> (\<exists>obj. deserialize lib n fs data = Inr obj))
       \<and> default_value d = (case d of Default v \<Rightarrow> v | DefaultFactory v \<Rightarrow> v | NoDefault \<Rightarrow> VNone)"
proof (intro conjI allI impI)
  fix obj assume "deserialize lib n fs data = Inr obj"
  then obtain kw where kw: "deserialize_fields lib fs data [] = Inr kw" and obj: "obj = VObj n kw"
    by (cases "deserialize_fields lib fs data []") auto
  from deserialize_fields_default [OF kw assms] obj
  show "getattr obj f = Some (default_value d)" by simp
next
  fix err assume "deserialize lib n fs data = Inl err"
  then have "deserialize_fields lib fs data [] = Inl err"
    by (cases "deserialize_fields lib fs data []") auto
  from deserialize_fields_error [OF this] obtain g tg dg raw e where
    g: "(g, tg, dg) \<in> set fs" "map_of data (VStr g) = Some raw"
       "deserialize_value lib tg raw = Inl e" "err = field_error g e"
    by blast
  from g(2) assms(3) have "g \<noteq> f" by auto
  with g show "\<exists>g tg dg raw e. (g, tg, dg) \<in> set fs \<and> g \<noteq> f \<and> map_of data (VStr g) = Some raw
                \<and> deserialize_value lib tg raw = Inl e \<and> err = field_error g e"
    by blast
next
  assume conv: "\<forall>(g, tg, dg) \<in> set fs. \<forall>raw. map_of data (VStr g) = Some raw
                \<longrightarrow> (\<exists>x. deserialize_value lib tg raw = Inr x)"
  show "\<exists>obj. deserialize lib n fs data = Inr obj"
  proof (cases "deserialize_fields lib fs data []")
    case (Inl err)
    from deserialize_fields_error [OF this] obtain g tg dg raw e where
      g: "(g, tg, dg) \<in> set fs" "map_of data (VStr g) = Some raw"
         "deserialize_value lib tg raw = Inl e"
      by blast
    from conv g(1) have "\<forall>raw. map_of data (VStr g) = Some raw
                \<longrightarrow> (\<exists>x. deserialize_value lib tg raw = Inr x)"
      by (auto simp: Ball_def)
    with g(2,3) show ?thesis by simp
  next
    case (Inr kw)
    then show ?thesis by simp
  qed
next
  show "default_value d = (case d of Default v \<Rightarrow> v | DefaultFactory v \<Rightarrow> v | NoDefault \<Rightarrow> VNone)"
    by (cases d) simp_all
qed

theorem missing_field_takes_default_witness:
  "getattr (VObj ''Product''
              [(''_id'', VStr ''generated-uuid''), (''_rev'', VNone), (''n'', VInt 42),
               (''price'', VDecimal (Decimal False 150 (- 2))), (''note'', VNone),
               (''tags'', VList [])]) ''tags'' = Some (VList [])
   \<and> deserialize lib0 ''Product'' product_fields product_doc
     = Inr (VObj ''Product''
              [(''_id'', VStr ''generated-uuid''), (''_rev'', VNone), (''n'', VInt 42),
               (''price'', VDecimal (Decimal False 150 (- 2))), (''note'', VNone),
               (''tags'', VList [])])"
proof -
  have a: "distinct (map fst product_fields)" by (simp add: product_fields_def)
  have b: "(''tags'', TList TStr, DefaultFactory (VList [])) \<in> set product_fields"
    by (simp add: product_fields_def)
  have c: "map_of product_doc (VStr ''tags'') = None" by (simp add: product_doc_def)
  from missing_field_takes_default [OF a b c, of lib0 "''Product''"] product_run
  show ?thesis by simp
qed

text \<open>
  C7. When the conversion of a field that the document has fails, \<^verbatim>\<open>deserialize\<close>
  fails: with a \<^verbatim>\<open>ValueError\<close> whose text names a field whose conversion failed and
  whose cause is that failure. The field named is the first in declaration order whose
  conversion fails: when every field before \<open>f\<close> that the document has converts, the
  error names \<open>f\<close> and its cause is the failure of \<open>f\<close>.
\<close>

theorem field_failure_is_wrapped:
  assumes "(f, t, d) \<in> set fs" and "map_of data (VStr f) = Some raw"
    and "deserialize_value lib t raw = Inl e"
  shows "(\<exists>g tg dg raw' e'. (g, tg, dg) \<in> set fs \<and> map_of data (VStr g) = Some raw'
            \<and> deserialize_value lib tg raw' = Inl e'
            \<and> deserialize lib n fs data
                = Inl (Exc ValueError
                        (''Error deserializing field '' @ [CHR 0x27] @ g @ [CHR 0x27] @ '': '' @ exc_str e')
                        (Some e')))
       \<and> (fs = pre @ (f, t, d) # post
            \<and> (\<forall>(h, th, dh) \<in> set pre. \<forall>r. map_of data (VStr h) = Some r
                  \<longrightarrow> (\<exists>x. deserialize_value lib th r = Inr x))
          \<longrightarrow> deserialize lib n fs data
                = Inl (Exc ValueError
                        (''Error deserializing field '' @ [CHR 0x27] @ f @ [CHR 0x27] @ '': '' @ exc_str e)
                        (Some e)))"
proof (intro conjI impI)
  from deserialize_fields_fails [OF assms, of "[]"] obtain err where
    err: "deserialize_fields lib fs data [] = Inl err" by blast
  from deserialize_fields_error [OF err] obtain g tg dg raw' e' where
    g: "(g, tg, dg) \<in> set fs" "map_of data (VStr g) = Some raw'"
       "deserialize_value lib tg raw' = Inl e'" "err = field_error g e'"
    by blast
  from err g(4) have "deserialize lib n fs data
                = Inl (Exc ValueError
                        (''Error deserializing field '' @ [CHR 0x27] @ g @ [CHR 0x27] @ '': '' @ exc_str e')
                        (Some e'))"
    by (simp add: field_error_def)
  with g(1,2,3)
  show "\<exists>g tg dg raw' e'. (g, tg, dg) \<in> set fs \<and> map_of data (VStr g) = Some raw'
            \<and> deserialize_value lib tg raw' = Inl e'
            \<and> deserialize lib n fs data
                = Inl (Exc ValueError
                        (''Error deserializing field '' @ [CHR 0x27] @ g @ [CHR 0x27] @ '': '' @ exc_str e')
                        (Some e'))"
    by blast
next
  assume "fs = pre @ (f, t, d) # post
            \<and> (\<forall>(h, th, dh) \<in> set pre. \<forall>r. map_of data (VStr h) = Some r
                  \<longrightarrow> (\<exists>x. deserialize_value lib th r = Inr x))"
  then have fs: "fs = pre @ (f, t, d) # post"
    and conv: "\<forall>(h, th, dh) \<in> set pre. \<forall>r. map_of data (VStr h) = Some r
                  \<longrightarrow> (\<exists>x. deserialize_value lib th r = Inr x)"
    by simp_all
  from deserialize_fields_first_failure [OF conv assms(2,3), of d post "[]"] fs
  show "deserialize lib n fs data
                = Inl (Exc ValueError
                        (''Error deserializing field '' @ [CHR 0x27] @ f @ [CHR 0x27] @ '': '' @ exc_str e)
                        (Some e))"
    by (simp add: field_error_def)
qed

theorem field_failure_is_wrapped_witness:
  "deserialize lib0 ''Product'' product_fields broken_doc
     = Inl (Exc ValueError
             (''Error deserializing field '' @ [CHR 0x27] @ ''n'' @ [CHR 0x27]
                @ '': invalid literal for int() with base 10: abc'')
             (Some (Exc ValueError ''invalid literal for int() with base 10: abc'' None)))"
proof -
  let ?pre = "[(''_id'', TStr, DefaultFactory (VStr ''generated-uuid'')), (''_rev'', TStr, Default VNone)]"
  let ?post = "[(''price'', TDecimal, NoDefault), (''note'', TOptional TStr, NoDefault),
                (''tags'', TList TStr, DefaultFactory (VList []))]"
  have a: "(''n'', TInt, NoDefault) \<in> set product_fields" by (simp add: product_fields_def)
  have b: "map_of broken_doc (VStr ''n'') = Some (VStr ''abc'')" by (simp add: broken_doc_def)
  have c: "deserialize_value lib0 TInt (VStr ''abc'')
             = Inl (Exc ValueError ''invalid literal for int() with base 10: abc'' None)"
    by (simp add: py_int_def lib0_def)
  have d: "product_fields = ?pre @ (''n'', TInt, NoDefault) # ?post" by (simp add: product_fields_def)
  have e: "\<forall>(h, th, dh) \<in> set ?pre. \<forall>r. map_of broken_doc (VStr h) = Some r
                  \<longrightarrow> (\<exists>x. deserialize_value lib0 th r = Inr x)"
    by (simp add: broken_doc_def)
  from field_failure_is_wrapped [OF a b c, of "''Product''" ?pre ?post] d e
  show ?thesis by simp
qed

section \<open>The marshaller: mappings\<close>

lemma mapM_Inr_iff:
  "mapM f xs = Inr ys \<longleftrightarrow> length ys = length xs \<and> (\<forall>i<length xs. f (xs ! i) = Inr (ys ! i))"
proof (induction xs arbitrary: ys)
  case Nil
  then show ?case by auto
next
  case (Cons x xs)
  show ?case
  proof (cases "f x")
    case (Inl e)
    then show ?thesis by (cases ys) auto
  next
    case (Inr y)
    show ?thesis
    proof (cases "mapM f xs")
      case (Inl e)
      have "\<not> (length ys = length (x # xs) \<and> (\<forall>i<length (x # xs). f ((x # xs) ! i) = Inr (ys ! i)))"
      proof
        assume h: "length ys = length (x # xs) \<and> (\<forall>i<length (x # xs). f ((x # xs) ! i) = Inr (ys ! i))"
        then obtain y' ys' where ys: "ys = y' # ys'" by (cases ys) auto
        from h ys have "length ys' = length xs \<and> (\<forall>i<length xs. f (xs ! i) = Inr (ys' ! i))"
          by fastforce
        with Cons.IH [of ys'] Inl show False by simp
      qed
      with Inl Inr show ?thesis by simp
    next
      case r: (Inr zs)
      show ?thesis
      proof
        assume "mapM f (x # xs) = Inr ys"
        with Inr r have ys: "ys = y # zs" by simp
        from r Cons.IH [of zs] have "length zs = length xs \<and> (\<forall>i<length xs. f (xs ! i) = Inr (zs ! i))"
          by simp
        with ys Inr show "length ys = length (x # xs) \<and> (\<forall>i<length (x # xs). f ((x # xs) ! i) = Inr (ys ! i))"
          by (auto simp: nth_Cons split: nat.splits)
      next
        assume h: "length ys = length (x # xs) \<and> (\<forall>i<length (x # xs). f ((x # xs) ! i) = Inr (ys ! i))"
        then obtain y' ys' where ys: "ys = y' # ys'" by (cases ys) auto
        from h ys Inr have y': "y' = y" by fastforce
        from h ys have "length ys' = length xs \<and> (\<forall>i<length xs. f (xs ! i) = Inr (ys' ! i))"
          by fastforce
        with Cons.IH [of ys'] r have "ys' = zs" by simp
        with ys y' Inr r show "mapM f (x # xs) = Inr ys" by simp
      qed
    qed
  qed
qed

text \<open>
  C9, as stated, fails on a null raw value: it is not a mapping, and
  \<^verbatim>\<open>deserialize_value\<close> returns \<^verbatim>\<open>None\<close> for it (orm.py 63-64) instead of failing.
\<close>

theorem map_field_null_is_not_rejected:
  "deserialize_value lib0 (TDict TStr TInt) VNone = Inr VNone"
  by simp

text \<open>
  C9, amended. \<^verbatim>\<open>serialize_value\<close> of a mapping keeps every key as it is, in order,
  and converts every value. \<^verbatim>\<open>deserialize_value\<close> at \<^verbatim>\<open>Dict[K, V]\<close> returns
  \<^verbatim>\<open>None\<close> for \<^verbatim>\<open>None\<close>, raises \<^verbatim>\<open>TypeError\<close> for any other value that is not a
  mapping, and for a mapping succeeds exactly when every key converts at \<open>K\<close> and every
  value converts at \<open>V\<close>; the result is then the dict of the converted pairs.
\<close>

theorem map_field_conversion:
  "(wf_dict kvs \<longrightarrow>
      serialize_value lib (VDict kvs) = VDict (map (\<lambda>(key, val). (key, serialize_value lib val)) kvs))
   \<and> deserialize_value lib (TDict kt vt) VNone = Inr VNone
   \<and> (v \<noteq> VNone \<and> (\<forall>items. v \<noteq> VDict items)
        \<longrightarrow> deserialize_value lib (TDict kt vt) v
              = Inl (Exc TypeError (''Expected dict for field, got '' @ type_name v) None))
   \<and> (deserialize_value lib (TDict kt vt) (VDict kvs) = Inr r
        \<longleftrightarrow> (\<exists>ps. length ps = length kvs
               \<and> (\<forall>i<length kvs.
                     deserialize_value lib kt (fst (kvs ! i)) = Inr (fst (ps ! i))
                   \<and> deserialize_value lib vt (snd (kvs ! i)) = Inr (snd (ps ! i)))
               \<and> r = VDict (dict_of_items ps)))"
proof (intro conjI impI)
  assume wf: "wf_dict kvs"
  have keys: "map fst (map (\<lambda>(key, val). (key, serialize_value lib val)) kvs) = map fst kvs"
    by (induction kvs) auto
  from wf have "distinct (map fst kvs)" by (simp only: wf_dict_def)
  with keys have "distinct (map fst (map (\<lambda>(key, val). (key, serialize_value lib val)) kvs))"
    by (simp only:)
  then have "wf_dict (map (\<lambda>(key, val). (key, serialize_value lib val)) kvs)"
    by (simp only: wf_dict_def)
  then show "serialize_value lib (VDict kvs) = VDict (map (\<lambda>(key, val). (key, serialize_value lib val)) kvs)"
    by (simp add: dict_of_items_wf)
next
  show "deserialize_value lib (TDict kt vt) VNone = Inr VNone" by simp
next
  assume "v \<noteq> VNone \<and> (\<forall>items. v \<noteq> VDict items)"
  then show "deserialize_value lib (TDict kt vt) v
              = Inl (Exc TypeError (''Expected dict for field, got '' @ type_name v) None)"
    by (cases v) simp_all
next
  let ?conv = "\<lambda>(k, x). case deserialize_value lib kt k of
                    Inl e \<Rightarrow> Inl e
                  | Inr k' \<Rightarrow> (case deserialize_value lib vt x of
                                 Inl e \<Rightarrow> Inl e
                               | Inr x' \<Rightarrow> Inr (k', x'))"
  have item: "\<And>p q. ?conv p = Inr q \<longleftrightarrow>
      deserialize_value lib kt (fst p) = Inr (fst q) \<and> deserialize_value lib vt (snd p) = Inr (snd q)"
    by (auto split: prod.splits sum.splits)
  have run: "deserialize_value lib (TDict kt vt) (VDict kvs)
               = (case mapM ?conv kvs of Inl e \<Rightarrow> Inl e | Inr ps \<Rightarrow> Inr (VDict (dict_of_items ps)))"
    by simp
  show "deserialize_value lib (TDict kt vt) (VDict kvs) = Inr r
        \<longleftrightarrow> (\<exists>ps. length ps = length kvs
               \<and> (\<forall>i<length kvs.
                     deserialize_value lib kt (fst (kvs ! i)) = Inr (fst (ps ! i))
                   \<and> deserialize_value lib vt (snd (kvs ! i)) = Inr (snd (ps ! i)))
               \<and> r = VDict (dict_of_items ps))"
  proof
    assume "deserialize_value lib (TDict kt vt) (VDict kvs) = Inr r"
    with run obtain ps where ps: "mapM ?conv kvs = Inr ps" and r: "r = VDict (dict_of_items ps)"
      by (cases "mapM ?conv kvs") auto
    from ps have "length ps = length kvs \<and> (\<forall>i<length kvs. ?conv (kvs ! i) = Inr (ps ! i))"
      unfolding mapM_Inr_iff .
    with r item show "\<exists>ps. length ps = length kvs
               \<and> (\<forall>i<length kvs.
                     deserialize_value lib kt (fst (kvs ! i)) = Inr (fst (ps ! i))
                   \<and> deserialize_value lib vt (snd (kvs ! i)) = Inr (snd (ps ! i)))
               \<and> r = VDict (dict_of_items ps)"
      by blast
  next
    assume "\<exists>ps. length ps = length kvs
               \<and> (\<forall>i<length kvs.
                     deserialize_value lib kt (fst (kvs ! i)) = Inr (fst (ps ! i))
                   \<and> deserialize_value lib vt (snd (kvs ! i)) = Inr (snd (ps ! i)))
               \<and> r = VDict (dict_of_items ps)"
    then obtain ps where ps: "length ps = length kvs"
        "\<forall>i<length kvs.
                     deserialize_value lib kt (fst (kvs ! i)) = Inr (fst (ps ! i))
                   \<and> deserialize_value lib vt (snd (kvs ! i)) = Inr (snd (ps ! i))"
        "r = VDict (dict_of_items ps)"
      by blast
    from ps(1,2) item have "length ps = length kvs \<and> (\<forall>i<length kvs. ?conv (kvs ! i) = Inr (ps ! i))"
      by blast
    then have "mapM ?conv kvs = Inr ps" unfolding mapM_Inr_iff .
    with run ps(3) show "deserialize_value lib (TDict kt vt) (VDict kvs) = Inr r" by simp
  qed
qed

theorem map_field_conversion_witness:
  "serialize_value lib0 (VDict [(VInt 1, VDecimal (Decimal False 150 (- 2)))])
     = VDict [(VInt 1, VStr ''1.50'')]
   \<and> deserialize_value lib0 (TDict TInt TDecimal) (VDict [(VStr ''42'', VStr ''1.50'')])
     = Inr (VDict [(VInt 42, VDecimal (Decimal False 150 (- 2)))])
   \<and> deserialize_value lib0 (TDict TInt TDecimal) (VList [])
     = Inl (Exc TypeError ''Expected dict for field, got list'' None)"
proof -
  have wf: "wf_dict [(VInt 1, VDecimal (Decimal False 150 (- 2)))]" by (simp add: wf_dict_def)
  have a: "serialize_value lib0 (VDict [(VInt 1, VDecimal (Decimal False 150 (- 2)))])
     = VDict [(VInt 1, VStr ''1.50'')]"
    using map_field_conversion [of "[(VInt 1, VDecimal (Decimal False 150 (- 2)))]" lib0] wf
    by (simp add: lib0_def)
  have b: "deserialize_value lib0 (TDict TInt TDecimal) (VList [])
     = Inl (Exc TypeError ''Expected dict for field, got list'' None)"
    using map_field_conversion [of _ lib0 TInt TDecimal "VList []"] by simp
  have c: "deserialize_value lib0 (TDict TInt TDecimal) (VDict [(VStr ''42'', VStr ''1.50'')])
     = Inr (VDict [(VInt 42, VDecimal (Decimal False 150 (- 2)))])"
    by (simp add: py_int_def py_Decimal_def lib0_def dict_of_items_def dict_update_def)
  from a b c show ?thesis by simp
qed

section \<open>The marshaller: round trip\<close>

lemma serialize_value_None: "serialize_value lib v = VNone \<longleftrightarrow> v = VNone"
  by (cases v) simp_all

lemma mapM_map_Inr:
  "(\<And>x. x \<in> set xs \<Longrightarrow> f (g x) = Inr x) \<Longrightarrow> mapM f (map g xs) = Inr xs"
  by (induction xs) simp_all

lemma conforms_fields_names: "conforms_fields lib fs fvs \<Longrightarrow> map fst fvs = map fst fs"
proof (induction fs arbitrary: fvs)
  case Nil
  then show ?case by simp
next
  case (Cons p fs)
  obtain f t d where p: "p = (f, t, d)" by (cases p)
  from Cons.prems p obtain x rest where fvs: "fvs = (f, x) # rest" and rest: "conforms_fields lib fs rest"
    by (cases fvs) auto
  from Cons.IH [OF rest] fvs p show ?case by simp
qed

lemma map_of_serialized_fields:
  "distinct (map fst fvs) \<Longrightarrow> (f, x) \<in> set fvs \<Longrightarrow>
   map_of (map (\<lambda>(f, v). (VStr f, serialize_value lib v)) fvs) (VStr f) = Some (serialize_value lib x)"
  by (induction fvs) (auto simp: rev_image_eqI)

lemma serialized_fields_wf:
  "distinct (map fst fvs) \<Longrightarrow> wf_dict (map (\<lambda>(f, v). (VStr f, serialize_value lib v)) fvs)"
  unfolding wf_dict_def by (induction fvs) (auto simp: rev_image_eqI)

lemma serialized_items_wf:
  "wf_dict kvs \<Longrightarrow> wf_dict (map (\<lambda>(key, val). (key, serialize_value lib val)) kvs)"
proof -
  have "map fst (map (\<lambda>(key, val). (key, serialize_value lib val)) kvs) = map fst kvs"
    by (induction kvs) auto
  then show "wf_dict kvs \<Longrightarrow> wf_dict (map (\<lambda>(key, val). (key, serialize_value lib val)) kvs)"
    by (simp only: wf_dict_def)
qed

lemma conversions_returning_their_argument:
  "deserialize_value lib TStr (VStr s) = Inr (VStr s)"
  "deserialize_value lib TInt (VInt i) = Inr (VInt i)"
  "deserialize_value lib TBool (VBool b) = Inr (VBool b)"
  "deserialize_value lib TFloat (VFloat x) = Inr (VFloat x)"
  "deserialize_value lib TDecimal (VDecimal d) = Inr (VDecimal d)"
  "deserialize_value lib TOther v = Inr v"
  "deserialize_value lib TDatetime (VDatetime t)
     = Inl (Exc TypeError ''fromisoformat: argument must be str'' None)"
  by (simp_all add: py_str_def py_int_def py_bool_def py_float_def py_Decimal_def
      py_fromisoformat_def)

lemma roundtrip_aux:
  shows "\<forall>v. conforms lib t v \<longrightarrow> raw = serialize_value lib v \<longrightarrow>
             deserialize_value lib t raw = Inr v"
    and "\<forall>fvs. conforms_fields lib fs fvs \<longrightarrow> distinct (map fst fs) \<longrightarrow>
             data = map (\<lambda>(f, x). (VStr f, serialize_value lib x)) fvs \<longrightarrow>
             deserialize lib n fs data = Inr (VObj n fvs)"
    and "\<forall>fvs. conforms_fields lib fs' fvs \<longrightarrow> distinct (map fst acc @ map fst fs') \<longrightarrow>
             (\<forall>(f, x) \<in> set fvs. map_of data' (VStr f) = Some (serialize_value lib x)) \<longrightarrow>
             deserialize_fields lib fs' data' acc = Inr (acc @ fvs)"
proof (induction lib t raw and lib n fs data and lib fs' data' acc
    rule: deserialize_value_deserialize_deserialize_fields.induct)
  case (1 lib t raw)
  show ?case
  proof (intro allI impI)
    fix v assume c: "conforms lib (TOptional t) v" and r: "raw = serialize_value lib v"
    show "deserialize_value lib (TOptional t) raw = Inr v"
    proof (cases "raw = VNone")
      case True
      with r have "serialize_value lib v = VNone" by simp
      then have "v = VNone" by (simp only: serialize_value_None)
      with True show ?thesis by simp
    next
      case False
      with "1.IH" c r show ?thesis by simp
    qed
  qed
next
  case (2 lib t raw)
  show ?case
  proof (intro allI impI)
    fix v assume c: "conforms lib (TList t) v" and r: "raw = serialize_value lib v"
    show "deserialize_value lib (TList t) raw = Inr v"
    proof (cases v)
      case VNone
      with r show ?thesis by simp
    next
      case (VList xs)
      with r have raw: "raw = VList (map (\<lambda>item. serialize_value lib item) xs)" by simp
      have "mapM (\<lambda>item. deserialize_value lib t item) (map (\<lambda>item. serialize_value lib item) xs) = Inr xs"
      proof (rule mapM_map_Inr)
        fix x assume x: "x \<in> set xs"
        with c VList have cx: "conforms lib t x" by (simp add: list_all_iff)
        from x have "serialize_value lib x \<in> set (map (\<lambda>item. serialize_value lib item) xs)" by simp
        from "2.IH" [OF _ raw this] raw cx show "deserialize_value lib t (serialize_value lib x) = Inr x"
          by simp
      qed
      with raw VList show ?thesis by simp
    qed (use c in simp_all)
  qed
next
  case (3 lib kt vt raw)
  show ?case
  proof (intro allI impI)
    fix v assume c: "conforms lib (TDict kt vt) v" and r: "raw = serialize_value lib v"
    show "deserialize_value lib (TDict kt vt) raw = Inr v"
    proof (cases v)
      case VNone
      with r show ?thesis by simp
    next
      case (VDict kvs)
      let ?g = "\<lambda>(key, val). (key, serialize_value lib val)"
      from c VDict have wf: "wf_dict kvs"
        and items: "list_all (\<lambda>(k, x). deserialize_value lib kt k = Inr k \<and> conforms lib vt x) kvs"
        by simp_all
      from r VDict have raw: "raw = VDict (map ?g kvs)"
        by (simp add: dict_of_items_wf [OF serialized_items_wf [OF wf]])
      let ?conv = "\<lambda>(k, x). case deserialize_value lib kt k of
                    Inl e \<Rightarrow> Inl e
                  | Inr k' \<Rightarrow> (case deserialize_value lib vt x of
                                 Inl e \<Rightarrow> Inl e
                               | Inr x' \<Rightarrow> Inr (k', x'))"
      have "mapM ?conv (map ?g kvs) = Inr kvs"
      proof (rule mapM_map_Inr)
        fix p assume p: "p \<in> set kvs"
        obtain k x where kx: "p = (k, x)" by (cases p)
        from items p kx have key: "deserialize_value lib kt k = Inr k" and cx: "conforms lib vt x"
          by (auto simp: list_all_iff)
        from p kx have mem: "(k, serialize_value lib x) \<in> set (map ?g kvs)" by force
        have "deserialize_value lib vt (serialize_value lib x) = Inr x"
          using "3.IH"(2) [OF _ raw mem refl key] raw cx by simp
        with key kx show "?conv (?g p) = Inr p" by simp
      qed
      with raw VDict wf show ?thesis by (simp add: dict_of_items_wf)
    qed (use c in simp_all)
  qed
next
  case (4 lib n fs raw)
  show ?case
  proof (intro allI impI)
    fix v assume c: "conforms lib (TClass n fs) v" and r: "raw = serialize_value lib v"
    show "deserialize_value lib (TClass n fs) raw = Inr v"
    proof (cases v)
      case VNone
      with r show ?thesis by simp
    next
      case (VObj n' fvs)
      with c have n: "n' = n" and dist: "distinct (map fst fs)" and cf: "conforms_fields lib fs fvs"
        by simp_all
      from conforms_fields_names [OF cf] dist have dfv: "distinct (map fst fvs)" by simp
      from r VObj have raw: "raw = VDict (map (\<lambda>(f, x). (VStr f, serialize_value lib x)) fvs)"
        by (simp add: dict_of_items_wf [OF serialized_fields_wf [OF dfv]])
      from "4.IH" [OF _ raw] raw cf dist
      have "deserialize lib n fs (map (\<lambda>(f, x). (VStr f, serialize_value lib x)) fvs) = Inr (VObj n fvs)"
        by simp
      with raw VObj n show ?thesis by simp
    qed (use c in simp_all)
  qed
next
  case (5 lib raw)
  show ?case
  proof (intro allI impI)
    fix v assume c: "conforms lib TDecimal v" and r: "raw = serialize_value lib v"
    then show "deserialize_value lib TDecimal raw = Inr v"
      by (cases v) (simp_all add: py_Decimal_def)
  qed
next
  case (6 lib raw)
  show ?case
  proof (intro allI impI)
    fix v assume c: "conforms lib TDatetime v" and r: "raw = serialize_value lib v"
    then show "deserialize_value lib TDatetime raw = Inr v"
      by (cases v) (simp_all add: py_fromisoformat_def)
  qed
next
  case (7 lib raw)
  show ?case
  proof (intro allI impI)
    fix v assume c: "conforms lib TInt v" and r: "raw = serialize_value lib v"
    then show "deserialize_value lib TInt raw = Inr v"
      by (cases v) (simp_all add: py_int_def)
  qed
next
  case (8 lib raw)
  show ?case
  proof (intro allI impI)
    fix v assume c: "conforms lib TFloat v" and r: "raw = serialize_value lib v"
    then show "deserialize_value lib TFloat raw = Inr v"
      by (cases v) (simp_all add: py_float_def)
  qed
next
  case (9 lib raw)
  show ?case
  proof (intro allI impI)
    fix v assume c: "conforms lib TStr v" and r: "raw = serialize_value lib v"
    then show "deserialize_value lib TStr raw = Inr v"
      by (cases v) (simp_all add: py_str_def)
  qed
next
  case (10 lib raw)
  show ?case
  proof (intro allI impI)
    fix v assume c: "conforms lib TBool v" and r: "raw = serialize_value lib v"
    then show "deserialize_value lib TBool raw = Inr v"
      by (cases v) (simp_all add: py_bool_def)
  qed
next
  case (11 lib raw)
  show ?case
  proof (intro allI impI)
    fix v assume c: "conforms lib TOther v" and r: "raw = serialize_value lib v"
    then show "deserialize_value lib TOther raw = Inr v" by simp
  qed
next
  case (12 lib n fs data)
  show ?case
  proof (intro allI impI)
    fix fvs assume cf: "conforms_fields lib fs fvs" and dist: "distinct (map fst fs)"
      and data: "data = map (\<lambda>(f, x). (VStr f, serialize_value lib x)) fvs"
    from conforms_fields_names [OF cf] dist have dfv: "distinct (map fst fvs)" by simp
    have look: "\<forall>(f, x) \<in> set fvs. map_of data (VStr f) = Some (serialize_value lib x)"
      using map_of_serialized_fields [OF dfv] data by auto
    from "12.IH" cf dist look have "deserialize_fields lib fs data [] = Inr fvs" by simp
    then show "deserialize lib n fs data = Inr (VObj n fvs)" by simp
  qed
next
  case (13 lib data deserialized_data)
  show ?case by simp
next
  case (14 lib field_name field_type dflt rest data acc)
  show ?case
  proof (intro allI impI)
    fix fvs assume cf: "conforms_fields lib ((field_name, field_type, dflt) # rest) fvs"
      and dist: "distinct (map fst acc @ map fst ((field_name, field_type, dflt) # rest))"
      and look: "\<forall>(f, x) \<in> set fvs. map_of data (VStr f) = Some (serialize_value lib x)"
    from cf obtain x rest' where fvs: "fvs = (field_name, x) # rest'"
      and cx: "conforms lib field_type x" and cr: "conforms_fields lib rest rest'"
      by (cases fvs) auto
    from look fvs have raw: "map_of data (VStr field_name) = Some (serialize_value lib x)" by simp
    from "14.IH"(2) [OF raw] cx have conv: "deserialize_value lib field_type (serialize_value lib x) = Inr x"
      by simp
    from dist have fresh: "field_name \<notin> fst ` set acc" by auto
    have set: "dict_set field_name x acc = acc @ [(field_name, x)]" by (rule dict_set_fresh [OF fresh])
    from dist have dist': "distinct (map fst (acc @ [(field_name, x)]) @ map fst rest)" by auto
    from look fvs have look': "\<forall>(f, x) \<in> set rest'. map_of data (VStr f) = Some (serialize_value lib x)"
      by simp
    from "14.IH"(3) [OF raw conv] cr dist' look' set
    have "deserialize_fields lib rest data (acc @ [(field_name, x)]) = Inr ((acc @ [(field_name, x)]) @ rest')"
      by simp
    with raw conv set fvs
    show "deserialize_fields lib ((field_name, field_type, dflt) # rest) data acc = Inr (acc @ fvs)"
      by simp
  qed
qed

text \<open>
  C3, as stated, fails: \<^verbatim>\<open>serialize_value\<close> leaves the keys of a mapping as they
  are, and \<^verbatim>\<open>deserialize_value\<close> converts them, so an instance with a
  \<^verbatim>\<open>Dict[datetime, int]\<close> field does not come back: \<^verbatim>\<open>datetime.fromisoformat\<close>
  is given the \<^verbatim>\<open>datetime\<close> key itself and raises.
\<close>

theorem roundtrip_fails_for_timestamp_keys:
  "sum_bind (serialize lib0 event_instance) (deserialize lib0 ''Event'' event_fields)
     = Inl (Exc ValueError
              (''Error deserializing field '' @ [CHR 0x27] @ ''seen'' @ [CHR 0x27]
                 @ '': fromisoformat: argument must be str'')
              (Some (Exc TypeError ''fromisoformat: argument must be str'' None)))"
  by (simp add: sum_bind_def serialize_def event_instance_def event_fields_def dict_of_items_def
      dict_update_def py_fromisoformat_def field_error_def)

text \<open>
  C3, amended. For every instance that conforms to its schema (values of the declared
  kinds, nested models, optionals, lists, maps whose keys their conversion returns
  unchanged, decimals and timestamps that the library parses back from their text),
  \<^verbatim>\<open>deserialize\<close> of the class and of \<^verbatim>\<open>serialize\<close> of the instance returns the
  instance, equal field by field.
\<close>

theorem roundtrip_conforming:
  assumes "conforms lib (TClass n fs) (VObj n fvs)"
  shows "sum_bind (serialize lib (VObj n fvs)) (deserialize lib n fs) = Inr (VObj n fvs)"
proof -
  from assms have dist: "distinct (map fst fs)" and cf: "conforms_fields lib fs fvs" by simp_all
  from conforms_fields_names [OF cf] dist have dfv: "distinct (map fst fvs)" by simp
  have ser: "serialize lib (VObj n fvs) = Inr (map (\<lambda>(f, x). (VStr f, serialize_value lib x)) fvs)"
    by (simp add: serialize_def dict_of_items_wf [OF serialized_fields_wf [OF dfv]])
  from roundtrip_aux(2) [of lib fs _ n] cf dist
  have "deserialize lib n fs (map (\<lambda>(f, x). (VStr f, serialize_value lib x)) fvs) = Inr (VObj n fvs)"
    by simp
  with ser show ?thesis by (simp add: sum_bind_def)
qed

theorem roundtrip_conforming_witness:
  "conforms lib0 (TClass ''Order'' order_fields) order_instance
   \<and> serialize lib0 order_instance
     = Inr [(VStr ''_id'', VStr ''o1''),
            (VStr ''_rev'', VNone),
            (VStr ''price'', VStr ''1.50''),
            (VStr ''placed'', VStr ''2024-01-02T03:04:05''),
            (VStr ''note'', VNone),
            (VStr ''tags'', VList [VStr ''new'', VStr ''gift'']),
            (VStr ''stock'', VDict [(VStr ''berlin'', VInt 3), (VStr ''paris'', VInt 0)]),
            (VStr ''customer'', VDict [(VStr ''name'', VStr ''Ada''), (VStr ''age'', VInt 36)]),
            (VStr ''paid'', VBool True)]
   \<and> sum_bind (serialize lib0 order_instance) (deserialize lib0 ''Order'' order_fields)
     = Inr order_instance"
proof -
  have c: "conforms lib0 (TClass ''Order'' order_fields)
             (VObj ''Order''
       [(''_id'', VStr ''o1''),
        (''_rev'', VNone),
        (''price'', VDecimal (Decimal False 150 (- 2))),
        (''placed'', VDatetime (Datetime 2024 1 2 3 4 5 0)),
        (''note'', VNone),
        (''tags'', VList [VStr ''new'', VStr ''gift'']),
        (''stock'', VDict [(VStr ''berlin'', VInt 3), (VStr ''paris'', VInt 0)]),
        (''customer'', VObj ''Customer'' [(''name'', VStr ''Ada''), (''age'', VInt 36)]),
        (''paid'', VBool True)])"
    by (simp add: order_fields_def customer_fields_def lib0_def wf_dict_def py_str_def)
  have s: "serialize lib0 order_instance
     = Inr [(VStr ''_id'', VStr ''o1''),
            (VStr ''_rev'', VNone),
            (VStr ''price'', VStr ''1.50''),
            (VStr ''placed'', VStr ''2024-01-02T03:04:05''),
            (VStr ''note'', VNone),
            (VStr ''tags'', VList [VStr ''new'', VStr ''gift'']),
            (VStr ''stock'', VDict [(VStr ''berlin'', VInt 3), (VStr ''paris'', VInt 0)]),
            (VStr ''customer'', VDict [(VStr ''name'', VStr ''Ada''), (VStr ''age'', VInt 36)]),
            (VStr ''paid'', VBool True)]"
    by (simp add: serialize_def order_instance_def lib0_def dict_of_items_def dict_update_def)
  from roundtrip_conforming [OF c] c s show ?thesis by (simp add: order_instance_def)
qed

end
